theory Spec2Isabelle
  imports Main "HOL-Library.Word" "HOL-Library.Log_Nat" "HOL-Library.Monad_Syntax"
begin

unbundle bit_operations_syntax

section \<open>Machine types and constants of sch\_qfq.c\<close>

text \<open>
  The scheduler is kernel code for a 64-bit target: \<open>u64\<close> and \<open>unsigned long\<close> are
  64-bit words, \<open>u32\<close> and \<open>unsigned int\<close> are 32-bit words. All arithmetic on them
  wraps, as in C. Values of type \<open>int\<close> that only ever hold small bit positions
  (group indexes, shift counts) are modelled as \<open>int\<close> or \<open>nat\<close>.
\<close>

type_synonym u64 = "64 word"
type_synonym u32 = "32 word"
type_synonym ulong = "64 word"

definition QFQ_MAX_SLOTS :: nat where "QFQ_MAX_SLOTS = 32"
definition QFQ_MAX_INDEX :: nat where "QFQ_MAX_INDEX = 19"
definition QFQ_MAX_WSHIFT :: nat where "QFQ_MAX_WSHIFT = 16"
definition QFQ_MAX_WEIGHT :: nat where "QFQ_MAX_WEIGHT = 2 ^ QFQ_MAX_WSHIFT"
definition QFQ_MAX_WSUM :: nat where "QFQ_MAX_WSUM = 2 * QFQ_MAX_WEIGHT"
definition FRAC_BITS :: nat where "FRAC_BITS = 30"
definition ONE_FP :: ulong where "ONE_FP = push_bit FRAC_BITS 1"
definition QFQ_MTU_SHIFT :: nat where "QFQ_MTU_SHIFT = 11"
definition QFQ_MIN_SLOT_SHIFT :: nat where
  "QFQ_MIN_SLOT_SHIFT = FRAC_BITS + QFQ_MTU_SHIFT - QFQ_MAX_INDEX"
definition LINK_SPEED :: nat where "LINK_SPEED = 9800"
definition NSEC_PER_SEC :: nat where "NSEC_PER_SEC = 1000000000"
definition QFQ_DRAIN_RATE :: u64 where
  "QFQ_DRAIN_RATE = of_nat LINK_SPEED * 125000 * ONE_FP div of_nat NSEC_PER_SEC"

subsection \<open>Bit scans of the kernel library\<close>

text \<open>
  \<open>__fls(w)\<close> is the position of the most significant set bit of an unsigned long,
  \<open>__ffs(w)\<close> the position of the least significant one; both are undefined on 0 and
  the scheduler guards every call. \<open>fls(x)\<close> takes a 32-bit \<open>int\<close> and returns the
  position of the most significant set bit counted from 1, and 0 on 0.
\<close>

primrec highest_bit_below :: "nat \<Rightarrow> 'a::len word \<Rightarrow> nat" where
  "highest_bit_below 0 w = 0"
| "highest_bit_below (Suc n) w = (if bit w n then n else highest_bit_below n w)"

primrec lowest_bit_from :: "nat \<Rightarrow> nat \<Rightarrow> 'a::len word \<Rightarrow> nat" where
  "lowest_bit_from 0 i w = i"
| "lowest_bit_from (Suc n) i w = (if bit w i then i else lowest_bit_from n (Suc i) w)"

definition k_fls :: "ulong \<Rightarrow> nat" where
  "k_fls w = highest_bit_below 64 w"

definition k_ffs :: "ulong \<Rightarrow> nat" where
  "k_ffs w = lowest_bit_from 64 0 w"

definition fls :: "u32 \<Rightarrow> nat" where
  "fls x = (if x = 0 then 0 else highest_bit_below 32 x + 1)"

section \<open>Group index of a class\<close>

text \<open>
  \<open>qfq_calc_index(inv_w, maxlen)\<close>: the product is taken in 64 bits, \<open>size_map\<close> is an
  unsigned long, \<open>index\<close> an int. The two \<open>goto out\<close> return the initial \<open>index = 0\<close>.
\<close>

definition qfq_calc_index :: "u32 \<Rightarrow> u32 \<Rightarrow> int" where
  "qfq_calc_index inv_w maxlen =
     (let slot_size = (ucast maxlen :: u64) * ucast inv_w in
      if (ucast inv_w :: ulong) = ONE_FP + 1 then 0
      else
        let size_map = (drop_bit QFQ_MIN_SLOT_SHIFT slot_size :: ulong) in
        if size_map = 0 then 0
        else
          let index = int (k_fls size_map) + 1;
              index = index -
                (if slot_size - push_bit (nat (index + int QFQ_MIN_SLOT_SHIFT - 1)) 1 = 0
                 then 1 else 0)
          in if index < 0 then 0 else index)"

text \<open>Line 348 of qfq\_change\_class: \<open>inv_w = weight ? ONE_FP / weight : ONE_FP + 1\<close>.\<close>

definition inv_w_of_weight :: "u32 \<Rightarrow> u32" where
  "inv_w_of_weight weight =
     (if weight \<noteq> 0 then ucast (ONE_FP div ucast weight) else ucast (ONE_FP + 1))"

section \<open>Scheduler state\<close>

text \<open>
  Pointers become indexes: a \<open>struct qfq_class *\<close> is the key of the class in
  \<open>classes\<close>, a \<open>struct qfq_group *\<close> is the position of the group in
  \<open>q->groups\<close>. An hlist is the list of its members, first member first. The
  sub-queue of a class (a pfifo behind the opaque queue contract) is the list of the
  lengths of its queued packets, head first. The fixed-size arrays \<open>bitmaps\<close>,
  \<open>groups\<close> and \<open>slots\<close> are functions of the position; \<open>slots\<close> is only ever
  indexed modulo \<open>QFQ_MAX_SLOTS\<close>, \<open>bitmaps\<close> by the four states, and \<open>groups\<close> by
  a position below \<open>QFQ_MAX_INDEX + 1\<close> or by a bit position of a state bitmap.
\<close>

definition ER :: nat where "ER = 0"
definition IR :: nat where "IR = 1"
definition EB :: nat where "EB = 2"
definition IB :: nat where "IB = 3"

record qfq_class =
  cl_S :: u64
  cl_F :: u64
  grp :: nat
  inv_w :: u32
  lmax :: u32
  qdisc :: "u32 list"

record qfq_group =
  grp_S :: u64
  grp_F :: u64
  slot_shift :: u32
  index :: u32
  front :: u32
  full_slots :: ulong
  slots :: "nat \<Rightarrow> nat list"

record qfq_sched =
  V :: u64
  wsum :: u32
  wsum_active :: u32
  bitmaps :: "nat \<Rightarrow> ulong"
  groups :: "nat \<Rightarrow> qfq_group"
  v_last_updated :: u64
  v_diff_sum :: u64
  t_diff_sum :: u64
  work_bitmap :: ulong
  work_queue :: "nat \<Rightarrow> (nat \<times> u32) list"
  classes :: "nat \<Rightarrow> qfq_class"
  clhash :: "nat list"
  sch_qlen :: u32

text \<open>Writing through a class or group pointer.\<close>

definition class_upd :: "nat \<Rightarrow> (qfq_class \<Rightarrow> qfq_class) \<Rightarrow> qfq_sched \<Rightarrow> qfq_sched" where
  "class_upd c f q = q\<lparr>classes := (classes q)(c := f (classes q c))\<rparr>"

definition group_upd :: "nat \<Rightarrow> (qfq_group \<Rightarrow> qfq_group) \<Rightarrow> qfq_sched \<Rightarrow> qfq_sched" where
  "group_upd gi f q = q\<lparr>groups := (groups q)(gi := f (groups q gi))\<rparr>"

definition bitmap_upd :: "nat \<Rightarrow> (ulong \<Rightarrow> ulong) \<Rightarrow> qfq_sched \<Rightarrow> qfq_sched" where
  "bitmap_upd s f q = q\<lparr>bitmaps := (bitmaps q)(s := f (bitmaps q s))\<rparr>"

section \<open>Timestamp and bitmap primitives\<close>

definition qfq_gt :: "u64 \<Rightarrow> u64 \<Rightarrow> bool" where
  "qfq_gt a b = (0 < sint (a - b))"

definition qfq_round_down :: "u64 \<Rightarrow> nat \<Rightarrow> u64" where
  "qfq_round_down ts shift = ts AND NOT (push_bit shift 1 - 1)"

definition qfq_ffs :: "qfq_sched \<Rightarrow> ulong \<Rightarrow> nat" where
  "qfq_ffs q bitmap = k_ffs bitmap"

definition mask_from :: "ulong \<Rightarrow> nat \<Rightarrow> ulong" where
  "mask_from bitmap from = bitmap AND NOT (push_bit from 1 - 1)"

text \<open>
  \<open>qfq_calc_state\<close>: \<open>state\<close> is an unsigned int that starts as the value of the
  comparison and may get \<open>EB\<close> or-ed in.
\<close>

definition qfq_calc_state :: "qfq_sched \<Rightarrow> nat \<Rightarrow> u32" where
  "qfq_calc_state q gi =
     (let g = groups q gi;
          state = (if qfq_gt (grp_S g) (V q) then 1 else 0);
          msk = mask_from (bitmaps q ER) (unat (index g))
      in if msk \<noteq> 0 then
           (let next = groups q (qfq_ffs q msk)
            in if qfq_gt (grp_F g) (grp_F next) then state OR of_nat EB else state)
         else state)"

definition qfq_move_groups :: "qfq_sched \<Rightarrow> ulong \<Rightarrow> nat \<Rightarrow> nat \<Rightarrow> qfq_sched" where
  "qfq_move_groups q msk src dst =
     (let q1 = bitmap_upd dst (\<lambda>b. b OR (bitmaps q src AND msk)) q
      in bitmap_upd src (\<lambda>b. b AND NOT msk) q1)"

definition qfq_unblock_groups :: "qfq_sched \<Rightarrow> nat \<Rightarrow> u64 \<Rightarrow> qfq_sched" where
  "qfq_unblock_groups q idx old_F =
     (let msk = mask_from (bitmaps q ER) (idx + 1)
      in if msk \<noteq> 0 \<and> \<not> qfq_gt (grp_F (groups q (qfq_ffs q msk))) old_F then q
         else
           (let msk = push_bit idx 1 - 1;
                q1 = qfq_move_groups q msk EB ER
            in qfq_move_groups q1 msk IB IR))"

text \<open>
  \<open>qfq_make_eligible\<close>: \<open>fls\<close> takes an int, so the unsigned long
  \<open>vslot ^ old_vslot\<close> is cut to its low 32 bits.
\<close>

definition qfq_make_eligible :: "qfq_sched \<Rightarrow> u64 \<Rightarrow> qfq_sched" where
  "qfq_make_eligible q old_V =
     (let vslot = (drop_bit QFQ_MIN_SLOT_SHIFT (V q) :: ulong);
          old_vslot = (drop_bit QFQ_MIN_SLOT_SHIFT old_V :: ulong)
      in if vslot \<noteq> old_vslot then
           (let msk = push_bit (fls (ucast (vslot XOR old_vslot))) 1 - 1;
                q1 = qfq_move_groups q msk IR ER
            in qfq_move_groups q1 msk IB EB)
         else q)"

definition qfq_update_eligible :: "qfq_sched \<Rightarrow> u64 \<Rightarrow> qfq_sched" where
  "qfq_update_eligible q old_V =
     (let ineligible = bitmaps q IR OR bitmaps q IB
      in if ineligible \<noteq> 0 then qfq_make_eligible q old_V else q)"

section \<open>The slot ring of a group\<close>

text \<open>
  \<open>qfq_slot_insert\<close>: \<open>slot\<close> is a u64, \<open>i\<close> an unsigned int. The message printed
  on overflow changes no state.
\<close>

definition qfq_slot_insert :: "qfq_sched \<Rightarrow> nat \<Rightarrow> nat \<Rightarrow> u64 \<Rightarrow> qfq_sched" where
  "qfq_slot_insert q gi cl roundedS =
     (let g = groups q gi;
          slot0 = (drop_bit (unat (slot_shift g)) (roundedS - grp_S g) :: u64);
          i0 = (ucast ((ucast (front g) + slot0) mod of_nat QFQ_MAX_SLOTS) :: u32);
          slot = (if slot0 \<ge> of_nat QFQ_MAX_SLOTS then of_nat QFQ_MAX_SLOTS - 1 else slot0);
          i = (if slot0 \<ge> of_nat QFQ_MAX_SLOTS
               then ucast ((ucast (front g) + slot) mod of_nat QFQ_MAX_SLOTS) else i0)
      in group_upd gi
           (\<lambda>g. g\<lparr>slots := (slots g)(unat i := cl # slots g (unat i)),
                  full_slots := set_bit (unat slot) (full_slots g)\<rparr>) q)"

text \<open>
  \<open>qfq_slot_head\<close> returns the first class of the front slot. On an empty list the
  source computes a pointer from NULL that no caller may dereference: \<open>None\<close>.
\<close>

definition qfq_slot_head :: "qfq_group \<Rightarrow> nat option" where
  "qfq_slot_head g = (case slots g (unat (front g)) of [] \<Rightarrow> None | c # _ \<Rightarrow> Some c)"

definition qfq_front_slot_remove :: "qfq_group \<Rightarrow> qfq_group option" where
  "qfq_front_slot_remove g =
     (case slots g (unat (front g)) of
        [] \<Rightarrow> None
      | c # rest \<Rightarrow>
          Some (g\<lparr>slots := (slots g)(unat (front g) := rest),
                 full_slots := (if rest = [] then unset_bit 0 (full_slots g) else full_slots g)\<rparr>))"

text \<open>
  \<open>qfq_slot_scan\<close> returns the group as it leaves it and the class found:
  \<open>Some (g, None)\<close> is the NULL of an empty group, \<open>None\<close> the pointer computed from an
  empty front slot.
\<close>

definition qfq_slot_scan :: "qfq_group \<Rightarrow> (qfq_group \<times> nat option) option" where
  "qfq_slot_scan g =
     (if full_slots g = 0 then Some (g, None)
      else
        (let i = (of_nat (k_ffs (full_slots g)) :: u32);
             g1 = (if i > 0
                   then g\<lparr>front := (front g + i) mod of_nat QFQ_MAX_SLOTS,
                          full_slots := drop_bit (unat i) (full_slots g)\<rparr>
                   else g)
         in case qfq_slot_head g1 of None \<Rightarrow> None | Some c \<Rightarrow> Some (g1, Some c)))"

definition qfq_slot_rotate :: "qfq_group \<Rightarrow> u64 \<Rightarrow> qfq_group" where
  "qfq_slot_rotate g roundedS =
     (let i = (ucast (drop_bit (unat (slot_shift g)) (grp_S g - roundedS)) :: u32)
      in g\<lparr>full_slots := push_bit (unat i) (full_slots g),
           front := (front g - i) mod of_nat QFQ_MAX_SLOTS\<rparr>)"

text \<open>
  \<open>qfq_slot_remove\<close>: \<open>hlist_del\<close> unlinks the class from the list it is on, and
  faults when it is on none; \<open>__clear_bit\<close> with a bit position outside the word
  writes outside \<open>full_slots\<close>. Both are \<open>None\<close>.
\<close>

definition qfq_slot_remove :: "qfq_sched \<Rightarrow> nat \<Rightarrow> nat \<Rightarrow> qfq_sched option" where
  "qfq_slot_remove q gi cl =
     (let g = groups q gi;
          roundedS = qfq_round_down (cl_S (classes q cl)) (unat (slot_shift g));
          offset = (ucast (drop_bit (unat (slot_shift g)) (roundedS - grp_S g)) :: u32);
          i = (front g + offset) mod of_nat QFQ_MAX_SLOTS
      in if \<not> list_ex (\<lambda>j. cl \<in> set (slots g j)) [0..<QFQ_MAX_SLOTS] then None
         else
           (let sl = (\<lambda>j. removeAll cl (slots g j))
            in if sl (unat i) = [] then
                 (if unat offset < 64
                  then Some (group_upd gi
                         (\<lambda>g. g\<lparr>slots := sl,
                                full_slots := unset_bit (unat offset) (full_slots g)\<rparr>) q)
                  else None)
               else Some (group_upd gi (\<lambda>g. g\<lparr>slots := sl\<rparr>) q)))"

section \<open>The virtual clock\<close>

text \<open>\<open>now\<close> is the value of \<open>ktime_get().tv64\<close> read by the call.\<close>

definition qfq_update_system_time :: "qfq_sched \<Rightarrow> u64 \<Rightarrow> qfq_sched" where
  "qfq_update_system_time q now =
     (let old_V = V q in
      if v_last_updated q = now then q
      else
        (let t_diff = now - v_last_updated q;
             drain = (\<lambda>t. QFQ_DRAIN_RATE * t div ucast (max (of_nat LINK_SPEED) (wsum_active q)));
             (v_diff, q1) =
               (if t_diff_sum q \<noteq> 0 then
                  (if t_diff \<ge> t_diff_sum q then
                     (let v_diff = v_diff_sum q;
                          t_diff1 = t_diff - t_diff_sum q;
                          q1 = q\<lparr>v_diff_sum := 0, t_diff_sum := 0\<rparr>
                      in if bitmaps q1 ER = 0 then (v_diff + drain t_diff1, q1)
                         else (v_diff, q1))
                   else
                     (let v_diff = v_diff_sum q * t_diff div t_diff_sum q
                      in (v_diff, q\<lparr>v_diff_sum := v_diff_sum q - v_diff,
                                     t_diff_sum := t_diff_sum q - t_diff\<rparr>)))
                else if bitmaps q ER = 0 then (drain t_diff, q)
                else (0, q));
             q2 = q1\<lparr>V := V q1 + v_diff, v_last_updated := now\<rparr>
         in qfq_update_eligible q2 old_V))"

section \<open>Dequeue\<close>

text \<open>
  \<open>qfq_update_class\<close> returns the new state and whether the group must be updated
  too. The class served is the head of the front slot of its group.
\<close>

definition qfq_update_class ::
  "qfq_sched \<Rightarrow> nat \<Rightarrow> nat \<Rightarrow> u32 \<Rightarrow> (qfq_sched \<times> bool) option" where
  "qfq_update_class q gi cl len =
     (let q1 = class_upd cl (\<lambda>c. c\<lparr>cl_S := cl_F c\<rparr>) q
      in if len = 0 \<or> (ucast (inv_w (classes q1 cl)) :: ulong) = ONE_FP + 1 then
           (case qfq_front_slot_remove (groups q1 gi) of
              None \<Rightarrow> None
            | Some g \<Rightarrow> Some (group_upd gi (\<lambda>_. g) q1, True))
         else
           (let q2 = class_upd cl
                  (\<lambda>c. c\<lparr>cl_F := cl_S c + ucast len * ucast (inv_w c)\<rparr>) q1;
                g = groups q2 gi;
                roundedS = qfq_round_down (cl_S (classes q2 cl)) (unat (slot_shift g))
            in if roundedS = grp_S g then Some (q2, False)
               else
                 (case qfq_front_slot_remove g of
                    None \<Rightarrow> None
                  | Some g1 \<Rightarrow>
                      Some (qfq_slot_insert (group_upd gi (\<lambda>_. g1) q2) gi cl roundedS, True))))"

definition wsum_active_sub :: "qfq_sched \<Rightarrow> nat \<Rightarrow> qfq_sched" where
  "wsum_active_sub q cl =
     q\<lparr>wsum_active := ucast ((ucast (wsum_active q) :: ulong)
                          - ONE_FP div ucast (inv_w (classes q cl)))\<rparr>"

text \<open>
  The tail of \<open>qfq_dequeue\<close>, from the call of \<open>qfq_update_class\<close> to the return:
  \<open>cl_qlen\<close> is the length of the sub-queue after the packet left, \<open>next_len\<close> the
  length of its next packet or 0, \<open>old_V\<close> the virtual time read before.
\<close>

definition qfq_dequeue_update ::
  "qfq_sched \<Rightarrow> nat \<Rightarrow> nat \<Rightarrow> nat \<Rightarrow> u32 \<Rightarrow> u64 \<Rightarrow> qfq_sched option" where
  "qfq_dequeue_update q gi cl cl_qlen next_len old_V =
     (case qfq_update_class q gi cl next_len of
        None \<Rightarrow> None
      | Some (q1, False) \<Rightarrow>
          (let q2 = (if inv_w (classes q1 cl) \<noteq> 0 \<and> cl_qlen = 0
                     then wsum_active_sub q1 cl else q1)
           in Some (qfq_update_eligible q2 old_V))
      | Some (q1, True) \<Rightarrow>
          (let old_F = grp_F (groups q1 gi);
               q2 = (if inv_w (classes q1 cl) \<noteq> 0 \<and> cl_qlen = 0
                     then wsum_active_sub q1 cl else q1);
               idx = unat (index (groups q2 gi))
           in case qfq_slot_scan (groups q2 gi) of
                None \<Rightarrow> None
              | Some (g, None) \<Rightarrow>
                  (let q3 = group_upd gi (\<lambda>_. g) q2;
                       q4 = bitmap_upd ER (unset_bit idx) q3
                   in Some (qfq_update_eligible (qfq_unblock_groups q4 idx old_F) old_V))
              | Some (g, Some c) \<Rightarrow>
                  (let q3 = group_upd gi (\<lambda>_. g) q2;
                       roundedS = qfq_round_down (cl_S (classes q3 c)) (unat (slot_shift g))
                   in if grp_S g = roundedS then Some (qfq_update_eligible q3 old_V)
                      else
                        (let q4 = group_upd gi
                               (\<lambda>g. g\<lparr>grp_S := roundedS,
                                      grp_F := roundedS + push_bit (unat (slot_shift g)) 2\<rparr>) q3;
                             q5 = bitmap_upd ER (unset_bit idx) q4;
                             s = qfq_calc_state q5 gi;
                             q6 = bitmap_upd (unat s) (set_bit idx) q5
                         in Some (qfq_update_eligible
                                    (qfq_unblock_groups q6 idx old_F) old_V)))))"

text \<open>
  \<open>qfq_dequeue\<close> returns the new state and the length of the packet handed out, if
  any. \<open>None\<close> is a fault: the group found in ER has an empty front slot.
\<close>

definition qfq_dequeue :: "qfq_sched \<Rightarrow> u64 \<Rightarrow> (qfq_sched \<times> u32 option) option" where
  "qfq_dequeue q0 now =
     (let q = qfq_update_system_time q0 now
      in if bitmaps q ER = 0 then Some (q, None)
         else
           (let gi = qfq_ffs q (bitmaps q ER)
            in case qfq_slot_head (groups q gi) of
                 None \<Rightarrow> None
               | Some cl \<Rightarrow>
                   (case qdisc (classes q cl) of
                      [] \<Rightarrow> Some (q, None)
                    | len # rest \<Rightarrow>
                        (let cl_qlen = length rest;
                             next_len = (case rest of [] \<Rightarrow> 0 | n # _ \<Rightarrow> n);
                             q1 = class_upd cl (\<lambda>c. c\<lparr>qdisc := rest\<rparr>) q;
                             q2 = (if cl_qlen = 0 then q1\<lparr>sch_qlen := sch_qlen q1 - 1\<rparr>
                                   else q1);
                             old_V = V q2;
                             q3 = q2\<lparr>v_diff_sum := v_diff_sum q2 +
                                       ucast len * ONE_FP div
                                         ucast (max (of_nat LINK_SPEED) (wsum_active q2)),
                                     t_diff_sum := t_diff_sum q2 +
                                       ucast len * of_nat NSEC_PER_SEC div
                                         (125000 * of_nat LINK_SPEED)\<rparr>
                         in case qfq_dequeue_update q3 gi cl cl_qlen next_len old_V of
                              None \<Rightarrow> None
                            | Some q4 \<Rightarrow> Some (q4, Some len)))))"

section \<open>Activation and deactivation of a class\<close>

definition qfq_update_start :: "qfq_sched \<Rightarrow> nat \<Rightarrow> qfq_sched" where
  "qfq_update_start q cl =
     (let c = classes q cl;
          g = groups q (grp c);
          shift = unat (slot_shift g);
          roundedF = qfq_round_down (cl_F c) shift;
          limit = qfq_round_down (V q) shift + push_bit shift 1
      in if \<not> qfq_gt (cl_F c) (V q) \<or> qfq_gt roundedF limit then
           (let msk = mask_from (bitmaps q ER) (unat (index g))
            in if msk \<noteq> 0 \<and> qfq_gt roundedF (grp_F (groups q (qfq_ffs q msk))) then
                 (let next = groups q (qfq_ffs q msk)
                  in if qfq_gt limit (grp_F next)
                     then class_upd cl (\<lambda>c. c\<lparr>cl_S := grp_F next\<rparr>) q
                     else class_upd cl (\<lambda>c. c\<lparr>cl_S := limit\<rparr>) q)
               else class_upd cl (\<lambda>c. c\<lparr>cl_S := V q\<rparr>) q)
         else class_upd cl (\<lambda>c. c\<lparr>cl_S := cl_F c\<rparr>) q)"

definition qfq_activate_class :: "qfq_sched \<Rightarrow> nat \<Rightarrow> u32 \<Rightarrow> qfq_sched" where
  "qfq_activate_class q cl pkt_len =
     (let gi = grp (classes q cl);
          q1 = qfq_update_start q cl;
          q2 = class_upd cl
                 (\<lambda>c. c\<lparr>cl_F := cl_S c + ucast pkt_len * ucast (inv_w c)\<rparr>) q1;
          g = groups q2 gi;
          shift = unat (slot_shift g);
          idx = unat (index g);
          roundedS = qfq_round_down (cl_S (classes q2 cl)) shift
      in if full_slots g \<noteq> 0 \<and> \<not> qfq_gt (grp_S g) (cl_S (classes q2 cl))
         then qfq_slot_insert q2 gi cl roundedS
         else
           (let q3 = (if full_slots g \<noteq> 0
                      then bitmap_upd IB (unset_bit idx)
                             (bitmap_upd IR (unset_bit idx)
                                (group_upd gi (\<lambda>g. qfq_slot_rotate g roundedS) q2))
                      else q2);
                q4 = group_upd gi
                       (\<lambda>g. g\<lparr>grp_S := roundedS, grp_F := roundedS + push_bit shift 2\<rparr>) q3;
                s = qfq_calc_state q4 gi;
                q5 = bitmap_upd (unat s) (set_bit idx) q4
            in qfq_slot_insert q5 gi cl roundedS))"

definition qfq_deactivate_class :: "qfq_sched \<Rightarrow> nat \<Rightarrow> qfq_sched option" where
  "qfq_deactivate_class q cl =
     (let gi = grp (classes q cl);
          q1 = class_upd cl (\<lambda>c. c\<lparr>cl_F := cl_S c\<rparr>) q
      in case qfq_slot_remove q1 gi cl of
           None \<Rightarrow> None
         | Some q2 \<Rightarrow>
             (let g = groups q2 gi;
                  idx = unat (index g)
              in if full_slots g = 0 then
                   (let q3 = bitmap_upd IB (unset_bit idx)
                               (bitmap_upd EB (unset_bit idx)
                                  (bitmap_upd IR (unset_bit idx) q2));
                        q4 = (if bit (bitmaps q3 ER) idx \<and>
                                 bitmaps q3 ER AND NOT (push_bit idx 1 - 1) = 0
                              then
                                (let msk0 = bitmaps q3 ER AND (push_bit idx 1 - 1);
                                     msk = (if msk0 \<noteq> 0
                                            then NOT (push_bit (k_fls msk0) 1 - 1)
                                            else NOT 0)
                                 in qfq_move_groups (qfq_move_groups q3 msk EB ER) msk IB IR)
                              else q3);
                        q5 = bitmap_upd ER (unset_bit idx) q4
                    in Some (qfq_update_eligible q5 (V q5)))
                 else if slots g (unat (front g)) = [] then
                   (case qfq_slot_scan g of
                      None \<Rightarrow> None
                    | Some (g1, None) \<Rightarrow> None
                    | Some (g1, Some c) \<Rightarrow>
                        (let q3 = group_upd gi (\<lambda>_. g1) q2;
                             shift = unat (slot_shift g1);
                             roundedS = qfq_round_down (cl_S (classes q3 c)) shift;
                             q4 = (if grp_S g1 \<noteq> roundedS then
                                     (let q5 = bitmap_upd IB (unset_bit idx)
                                                 (bitmap_upd EB (unset_bit idx)
                                                    (bitmap_upd IR (unset_bit idx)
                                                       (bitmap_upd ER (unset_bit idx) q3)));
                                          q6 = group_upd gi
                                                 (\<lambda>g. g\<lparr>grp_S := roundedS,
                                                        grp_F := roundedS + push_bit shift 2\<rparr>)
                                                 q5;
                                          s = qfq_calc_state q6 gi
                                      in bitmap_upd (unat s) (set_bit idx) q6)
                                   else q3)
                         in Some (qfq_update_eligible q4 (V q4))))
                 else Some (qfq_update_eligible q2 (V q2))))"

section \<open>Enqueue, the activation queue and drop\<close>

text \<open>
  \<open>qfq_enqueue\<close> on the path where the packet is classified to \<open>cl\<close>, the sub-queue
  accepts it and the work entry is allocated; \<open>cpu\<close> is the processor of the
  producer. The scheduler bitmaps are not touched.
\<close>

definition qfq_enqueue :: "qfq_sched \<Rightarrow> nat \<Rightarrow> nat \<Rightarrow> u32 \<Rightarrow> qfq_sched" where
  "qfq_enqueue q cpu cl len =
     (let q1 = class_upd cl (\<lambda>c. c\<lparr>qdisc := qdisc c @ [len]\<rparr>) q;
          cl_qlen = length (qdisc (classes q1 cl))
      in if cl_qlen \<noteq> 1 then q1
         else if (ucast (inv_w (classes q1 cl)) :: ulong) \<noteq> ONE_FP + 1 then
           q1\<lparr>work_queue := (work_queue q1)(cpu := work_queue q1 cpu @ [(cl, len)]),
              work_bitmap := set_bit cpu (work_bitmap q1)\<rparr>
         else q1)"

text \<open>
  The loop body of \<open>qfq_spinner_activate_classes\<close>. The division
  \<open>ONE_FP / ent->cl->inv_w\<close> traps on a zero divisor: \<open>None\<close>.
\<close>

fun activate_entries :: "qfq_sched \<Rightarrow> (nat \<times> u32) list \<Rightarrow> qfq_sched option" where
  "activate_entries q [] = Some q"
| "activate_entries q ((cl, pkt_len) # es) =
     (let q1 = qfq_activate_class q cl pkt_len
      in if inv_w (classes q1 cl) = 0 then None
         else
           (let q2 = q1\<lparr>wsum_active := ucast ((ucast (wsum_active q1) :: ulong)
                                        + ONE_FP div ucast (inv_w (classes q1 cl))),
                      sch_qlen := sch_qlen q1 + 1\<rparr>
            in activate_entries q2 es))"

fun activate_cpus :: "qfq_sched \<Rightarrow> nat list \<Rightarrow> qfq_sched option" where
  "activate_cpus q [] = Some q"
| "activate_cpus q (cpu # cpus) =
     (if bit (work_bitmap q) cpu then
        (let q1 = q\<lparr>work_bitmap := unset_bit cpu (work_bitmap q)\<rparr>
         in case activate_entries q1 (work_queue q1 cpu) of
              None \<Rightarrow> None
            | Some q2 \<Rightarrow> activate_cpus (q2\<lparr>work_queue := (work_queue q2)(cpu := [])\<rparr>) cpus)
      else activate_cpus q cpus)"

text \<open>\<open>cpus\<close> lists the possible processors in the order of \<open>for_each_possible_cpu\<close>.\<close>

definition qfq_spinner_activate_classes ::
  "nat list \<Rightarrow> qfq_sched \<Rightarrow> u64 \<Rightarrow> qfq_sched option" where
  "qfq_spinner_activate_classes cpus q now =
     (if work_bitmap q = 0 then Some q
      else activate_cpus (qfq_update_system_time q now) cpus)"

text \<open>
  The \<open>drop\<close> operation of the sub-queue (the queue contract's drop-one, a pfifo here):
  it removes the last packet and returns its length, 0 on an empty queue.
\<close>

definition qdisc_drop :: "u32 list \<Rightarrow> u32 list \<times> u32" where
  "qdisc_drop pkts = (if pkts = [] then ([], 0) else (butlast pkts, last pkts))"

fun qfq_drop_loop :: "qfq_sched \<Rightarrow> nat list \<Rightarrow> (qfq_sched \<times> u32) option" where
  "qfq_drop_loop q [] = Some (q, 0)"
| "qfq_drop_loop q (cl # cls) =
     (let (pkts, len) = qdisc_drop (qdisc (classes q cl));
          q1 = class_upd cl (\<lambda>c. c\<lparr>qdisc := pkts\<rparr>) q
      in if len > 0 then
           (let q2 = q1\<lparr>sch_qlen := sch_qlen q1 - 1\<rparr>
            in if pkts = [] then
                 (case qfq_deactivate_class q2 cl of
                    None \<Rightarrow> None
                  | Some q3 \<Rightarrow> Some (q3, len))
               else Some (q2, len))
         else qfq_drop_loop q1 cls)"

text \<open>
  \<open>qfq_drop\<close> visits the groups by position, their slots by physical index and the
  classes of a slot in list order, and stops at the first class that gives up a
  packet.
\<close>

definition qfq_drop :: "qfq_sched \<Rightarrow> (qfq_sched \<times> u32) option" where
  "qfq_drop q =
     qfq_drop_loop q
       (concat (map (\<lambda>i. concat (map (slots (groups q i)) [0..<QFQ_MAX_SLOTS]))
                  [0..<QFQ_MAX_INDEX + 1]))"

section \<open>Class configuration\<close>

definition qfq_update_class_params ::
  "qfq_sched \<Rightarrow> nat \<Rightarrow> u32 \<Rightarrow> u32 \<Rightarrow> u32 \<Rightarrow> qfq_sched" where
  "qfq_update_class_params q cl lmax' inv_w' delta_w =
     (let q1 = class_upd cl (\<lambda>c. c\<lparr>lmax := lmax', inv_w := inv_w'\<rparr>) q;
          i = qfq_calc_index (inv_w (classes q1 cl)) (lmax (classes q1 cl));
          q2 = class_upd cl (\<lambda>c. c\<lparr>grp := nat i\<rparr>) q1
      in q2\<lparr>wsum := wsum q2 + delta_w\<rparr>)"

text \<open>
  A request to \<open>qfq_change_class\<close>: whether \<open>tca[TCA_OPTIONS]\<close> is present, the result of
  \<open>nla_parse_nested\<close>, the two attributes if present, the result of the rate estimator
  call (0 when \<open>tca[TCA_RATE]\<close> is absent), and the address \<open>kzalloc\<close> returns for a new
  class. The class argument is \<open>None\<close> for a class to be created.
\<close>

record change_req =
  has_options :: bool
  parse_err :: int
  tb_weight :: "u32 option"
  tb_lmax :: "u32 option"
  rate_err :: int
  alloc :: "nat option"

definition EINVAL :: int where "EINVAL = 22"
definition ENOBUFS :: int where "ENOBUFS = 105"

definition qfq_peek_len :: "u32 list \<Rightarrow> u32" where
  "qfq_peek_len pkts = (case pkts of [] \<Rightarrow> 0 | n # _ \<Rightarrow> n)"

definition zero_class :: qfq_class where
  "zero_class = \<lparr>cl_S = 0, cl_F = 0, grp = 0, inv_w = 0, lmax = 0, qdisc = []\<rparr>"

definition qfq_change_existing ::
  "qfq_sched \<Rightarrow> nat \<Rightarrow> change_req \<Rightarrow> u32 \<Rightarrow> u32 \<Rightarrow> u32 \<Rightarrow> (int \<times> qfq_sched) option" where
  "qfq_change_existing q cl r lmax' inv_w' delta_w =
     (if rate_err r \<noteq> 0 then Some (rate_err r, q)
      else if lmax' = lmax (classes q cl) \<and> inv_w' = inv_w (classes q cl) then Some (0, q)
      else
        (let i = qfq_calc_index inv_w' lmax';
             old_sentinel = ((ucast (inv_w (classes q cl)) :: ulong) = ONE_FP + 1);
             new_sentinel = ((ucast inv_w' :: ulong) = ONE_FP + 1);
             moved = (nat i \<noteq> grp (classes q cl) \<and> qdisc (classes q cl) \<noteq> [] \<and>
                      \<not> old_sentinel)
         in case (if moved
                  then qfq_deactivate_class (class_upd cl (\<lambda>c. c\<lparr>cl_F := cl_S c\<rparr>) q) cl
                  else Some q) of
              None \<Rightarrow> None
            | Some q1 \<Rightarrow>
                (let need_reactivation =
                       ((moved \<and> \<not> new_sentinel) \<or> (old_sentinel \<and> \<not> new_sentinel));
                     q2 = qfq_update_class_params q1 cl lmax' inv_w' delta_w;
                     q3 = (if qdisc (classes q2 cl) \<noteq> []
                           then q2\<lparr>wsum_active := wsum_active q2 + delta_w\<rparr> else q2);
                     q4 = (if need_reactivation
                           then qfq_activate_class q3 cl (qfq_peek_len (qdisc (classes q3 cl)))
                           else q3)
                 in Some (0, q4))))"

definition qfq_change_new ::
  "qfq_sched \<Rightarrow> change_req \<Rightarrow> u32 \<Rightarrow> u32 \<Rightarrow> u32 \<Rightarrow> (int \<times> qfq_sched) option" where
  "qfq_change_new q r lmax' inv_w' delta_w =
     (case alloc r of
        None \<Rightarrow> Some (- ENOBUFS, q)
      | Some p \<Rightarrow>
          (let q1 = class_upd p (\<lambda>_. zero_class) q;
               q2 = qfq_update_class_params q1 p lmax' inv_w' delta_w
           in if rate_err r \<noteq> 0 then Some (rate_err r, q2)
              else Some (0, q2\<lparr>clhash := p # clhash q2\<rparr>)))"

text \<open>
  \<open>qfq_change_class\<close> returns the error code and the state it leaves. The division
  \<open>ONE_FP / cl->inv_w\<close> for an existing class traps on a zero divisor: \<open>None\<close>, as is
  a fault inside \<open>qfq_deactivate_class\<close>.
\<close>

definition qfq_change_class ::
  "qfq_sched \<Rightarrow> nat option \<Rightarrow> change_req \<Rightarrow> (int \<times> qfq_sched) option" where
  "qfq_change_class q cl r =
     (if \<not> has_options r then Some (- EINVAL, q)
      else if parse_err r < 0 then Some (parse_err r, q)
      else if (case tb_weight r of Some w \<Rightarrow> w > push_bit QFQ_MAX_WSHIFT 1 | None \<Rightarrow> False)
      then Some (- EINVAL, q)
      else if (case cl of Some c \<Rightarrow> inv_w (classes q c) = 0 | None \<Rightarrow> False) then None
      else
        (let weight0 = (case tb_weight r of Some w \<Rightarrow> w | None \<Rightarrow> 1);
             inv_w' = inv_w_of_weight weight0;
             weight = (ucast (ONE_FP div ucast inv_w') :: u32);
             delta_w = (ucast ((ucast weight :: ulong) -
                          (case cl of
                             Some c \<Rightarrow> ONE_FP div ucast (inv_w (classes q c))
                           | None \<Rightarrow> 0)) :: u32)
         in if wsum q + delta_w > of_nat QFQ_MAX_WSUM then Some (- EINVAL, q)
            else if (case tb_lmax r of
                       Some l \<Rightarrow> l = 0 \<or> l > push_bit QFQ_MTU_SHIFT 1
                     | None \<Rightarrow> False)
            then Some (- EINVAL, q)
            else
              (let lmax' = (case tb_lmax r of Some l \<Rightarrow> l | None \<Rightarrow> push_bit QFQ_MTU_SHIFT 1)
               in case cl of
                    Some c \<Rightarrow> qfq_change_existing q c r lmax' inv_w' delta_w
                  | None \<Rightarrow> qfq_change_new q r lmax' inv_w' delta_w)))"

section \<open>Initialisation\<close>

text \<open>
  \<open>qfq_init_qdisc\<close> runs on the zeroed private area of the qdisc: it sets the index
  and the slot shift of the groups, clears the pacing accumulators and the work
  queues.
\<close>

definition zero_group :: qfq_group where
  "zero_group = \<lparr>grp_S = 0, grp_F = 0, slot_shift = 0, index = 0, front = 0,
                 full_slots = 0, slots = (\<lambda>_. [])\<rparr>"

definition qfq_init_qdisc :: qfq_sched where
  "qfq_init_qdisc =
     \<lparr>V = 0, wsum = 0, wsum_active = 0, bitmaps = (\<lambda>_. 0),
      groups = (\<lambda>i. if i \<le> QFQ_MAX_INDEX
                     then zero_group\<lparr>index := of_nat i,
                            slot_shift := of_nat (QFQ_MTU_SHIFT + FRAC_BITS -
                                                  (QFQ_MAX_INDEX - i))\<rparr>
                     else zero_group),
      v_last_updated = 0, v_diff_sum = 0, t_diff_sum = 0,
      work_bitmap = 0, work_queue = (\<lambda>_. []),
      classes = (\<lambda>_. zero_class), clhash = [], sch_qlen = 0\<rparr>"

section \<open>Notions of the specification\<close>

text \<open>
  The lowest-index group in ER among the positions from \<open>n\<close> upward: \<open>j\<close> is in ER,
  \<open>n \<le> j\<close>, and no position from \<open>n\<close> up to \<open>j\<close> is in ER.
\<close>

definition lowest_ER_from :: "qfq_sched \<Rightarrow> nat \<Rightarrow> nat \<Rightarrow> bool" where
  "lowest_ER_from q n j \<longleftrightarrow>
     n \<le> j \<and> bit (bitmaps q ER) j \<and> (\<forall>k. n \<le> k \<and> k < j \<longrightarrow> \<not> bit (bitmaps q ER) k)"

text \<open>
  Two states around groups 2 and 3 (slot shifts 24 and 25) at virtual time \<open>2 ^ 26\<close>:
  group 2 has \<open>S = 2 ^ 26\<close> and \<open>F = S + 2 ^ 25\<close>, group 3 has \<open>S = 0\<close> and
  \<open>F = 2 ^ 26\<close>. In the first, group 3 is in ER and group 2 in EB; in the second both
  bits are set in ER.
\<close>

definition c3_blocked :: qfq_sched where
  "c3_blocked = qfq_init_qdisc
     \<lparr>V := 67108864,
      bitmaps := (\<lambda>_. 0)(ER := 8, EB := 4),
      groups := (groups qfq_init_qdisc)
        (2 := (groups qfq_init_qdisc 2)\<lparr>grp_S := 67108864, grp_F := 100663296, full_slots := 1\<rparr>,
         3 := (groups qfq_init_qdisc 3)\<lparr>grp_S := 0, grp_F := 67108864, full_slots := 1\<rparr>)\<rparr>"

definition c3_own_bit :: qfq_sched where
  "c3_own_bit = c3_blocked\<lparr>bitmaps := (\<lambda>_. 0)(ER := 12)\<rparr>"

text \<open>
  The first of these states with an idle class 7 of group 2 whose finish time
  \<open>2 ^ 27\<close> lies beyond \<open>limit\<close>.
\<close>

definition c5_state :: qfq_sched where
  "c5_state = c3_blocked
     \<lparr>classes := (classes c3_blocked)
        (7 := \<lparr>cl_S = 0, cl_F = 134217728, grp = 2, inv_w = 16384, lmax = 1024,
                qdisc = [1024]\<rparr>)\<rparr>"

text \<open>
  A state with pacing debt: 16718 ns of debt worth 2243901281 units of virtual time,
  last updated at time 100, no group in ER.
\<close>

definition c2_state :: qfq_sched where
  "c2_state = qfq_init_qdisc
     \<lparr>V := 1000, wsum := 2, wsum_active := 2, v_last_updated := 100,
      v_diff_sum := 2243901281, t_diff_sum := 16718\<rparr>"

text \<open>
  The advance of the virtual clock at the drain rate over \<open>dt\<close> nanoseconds with
  active weight sum \<open>wa\<close>, as the specification writes it:
  \<open>DRAIN_RATE * dt / max(LINK_SPEED, wsum_active)\<close>, a quotient of natural numbers.
\<close>

definition claimed_drain :: "nat \<Rightarrow> nat \<Rightarrow> nat" where
  "claimed_drain dt wa = unat QFQ_DRAIN_RATE * dt div max LINK_SPEED wa"

text \<open>
  What a request asks for, with the defaults of \<open>qfq_change_class\<close>; the weight a
  stored \<open>inv_w\<close> stands for, \<open>ONE_FP / inv_w\<close>; and the change of the weight sum a
  request would cause, as an integer.
\<close>

definition req_weight :: "change_req \<Rightarrow> u32" where
  "req_weight r = (case tb_weight r of Some w \<Rightarrow> w | None \<Rightarrow> 1)"

definition req_lmax :: "change_req \<Rightarrow> u32" where
  "req_lmax r = (case tb_lmax r of Some l \<Rightarrow> l | None \<Rightarrow> push_bit QFQ_MTU_SHIFT 1)"

definition weight_of_inv_w :: "u32 \<Rightarrow> nat" where
  "weight_of_inv_w iw = unat ONE_FP div unat iw"

definition weight_delta :: "qfq_sched \<Rightarrow> nat option \<Rightarrow> change_req \<Rightarrow> int" where
  "weight_delta q cl r =
     int (weight_of_inv_w (inv_w_of_weight (req_weight r))) -
     (case cl of Some c \<Rightarrow> int (weight_of_inv_w (inv_w (classes q c))) | None \<Rightarrow> 0)"

text \<open>
  The request that creates a class at address \<open>p\<close> with the default weight 1 and the
  default \<open>lmax = 2 ^ QFQ_MTU_SHIFT\<close>, and a scheduler whose weight sum is at its
  maximum.
\<close>

definition new_class_req :: "nat \<Rightarrow> change_req" where
  "new_class_req p = \<lparr>has_options = True, parse_err = 0, tb_weight = None, tb_lmax = None,
      rate_err = 0, alloc = Some p\<rparr>"

definition c9_full :: qfq_sched where
  "c9_full = qfq_init_qdisc\<lparr>wsum := 131072\<rparr>"

text \<open>
  A state in which group 5 (slot shift 27) is in ER with the single class 9, whose
  sub-queue has just been emptied, and group 3 (slot shift 25) with class 8 is in EB,
  blocked by group 5: both are eligible (\<open>S \<le> V\<close>) and \<open>F\<close> of group 3 is after \<open>F\<close>
  of group 5. No group above position 5 is in ER.
\<close>

definition c4_state :: qfq_sched where
  "c4_state = qfq_init_qdisc
     \<lparr>V := 369098757, wsum := 81920, wsum_active := 65536,
      bitmaps := (\<lambda>_. 0)(ER := 32, EB := 8),
      groups := (groups qfq_init_qdisc)
        (5 := (groups qfq_init_qdisc 5)
                \<lparr>grp_S := 134217728, grp_F := 402653184, full_slots := 1,
                 slots := (\<lambda>_. [])(0 := [9])\<rparr>,
         3 := (groups qfq_init_qdisc 3)
                \<lparr>grp_S := 369098752, grp_F := 436207616, full_slots := 1,
                 slots := (\<lambda>_. [])(0 := [8])\<rparr>),
      classes := (\<lambda>_. zero_class)
        (9 := \<lparr>cl_S = 134217828, cl_F = 232521828, grp = 5, inv_w = 65536, lmax = 2048,
                qdisc = []\<rparr>,
         8 := \<lparr>cl_S = 369098755, cl_F = 393674755, grp = 3, inv_w = 16384, lmax = 2048,
                qdisc = [1500]\<rparr>),
      clhash := [9, 8], sch_qlen := 1\<rparr>"

text \<open>
  The sum the specification equates \<open>wsum_active\<close> with: \<open>ONE_FP / inv_w\<close> over the
  registered classes whose sub-queue is not empty and whose \<open>inv_w\<close> is not the
  weight-zero sentinel.
\<close>

definition backlogged_weight :: "qfq_sched \<Rightarrow> nat" where
  "backlogged_weight q =
     sum_list (map (\<lambda>c. if qdisc (classes q c) \<noteq> [] \<and>
                            (ucast (inv_w (classes q c)) :: ulong) \<noteq> ONE_FP + 1
                         then weight_of_inv_w (inv_w (classes q c)) else 0)
                 (clhash q))"

text \<open>
  From initialisation: class 1 is created with the defaults, a packet of 1500 bytes
  is enqueued for it on processor 0, and the consumer drains the activation queue at
  time 9800.
\<close>

definition c7_active :: "qfq_sched option" where
  "c7_active =
     (case qfq_change_class qfq_init_qdisc None (new_class_req 1) of
        None \<Rightarrow> None
      | Some (err, q1) \<Rightarrow> qfq_spinner_activate_classes [0] (qfq_enqueue q1 0 1 1500) 9800)"

text \<open>
  The invariant of the state bitmaps: the four bitmaps are pairwise disjoint, and a
  group has a non-empty \<open>full_slots\<close> exactly when its bit is set in exactly one of
  them.
\<close>

definition bitmaps_disjoint :: "qfq_sched \<Rightarrow> bool" where
  "bitmaps_disjoint q \<longleftrightarrow>
     bitmaps q ER AND bitmaps q IR = 0 \<and> bitmaps q ER AND bitmaps q EB = 0 \<and>
     bitmaps q ER AND bitmaps q IB = 0 \<and> bitmaps q IR AND bitmaps q EB = 0 \<and>
     bitmaps q IR AND bitmaps q IB = 0 \<and> bitmaps q EB AND bitmaps q IB = 0"

definition states_of_group :: "qfq_sched \<Rightarrow> nat \<Rightarrow> nat list" where
  "states_of_group q gi =
     filter (\<lambda>s. bit (bitmaps q s) (unat (index (groups q gi)))) [ER, IR, EB, IB]"

definition qfq_bitmap_inv :: "qfq_sched \<Rightarrow> bool" where
  "qfq_bitmap_inv q \<longleftrightarrow>
     bitmaps_disjoint q \<and>
     list_all (\<lambda>gi. (full_slots (groups q gi) \<noteq> 0) = (length (states_of_group q gi) = 1))
       [0..<QFQ_MAX_INDEX + 1]"

text \<open>
  A run from initialisation. Classes 10 and 20 are created with the defaults (weight
  1, \<open>lmax = 2048\<close>, hence group 19 with slot shift 41). Producers on processor 0
  enqueue a packet of 4096 bytes for class 20 and two packets of 20480 bytes for class
  10, and the consumer drains the activation queue at time 9800.
\<close>

definition c1_drained :: "qfq_sched option" where
  "c1_drained =
     (case qfq_change_class qfq_init_qdisc None (new_class_req 10) of
        None \<Rightarrow> None
      | Some (e1, q1) \<Rightarrow>
          (case qfq_change_class q1 None (new_class_req 20) of
             None \<Rightarrow> None
           | Some (e2, q2) \<Rightarrow>
               qfq_spinner_activate_classes [0]
                 (qfq_enqueue (qfq_enqueue (qfq_enqueue q2 0 20 4096) 0 10 20480) 0 10 20480)
                 9800))"

text \<open>The state this leaves: both classes in slot 0 of group 19, which is in ER.\<close>

definition c1_s1 :: qfq_sched where
  "c1_s1 = qfq_init_qdisc
     \<lparr>V := 1315333734, wsum := 2, wsum_active := 2,
      bitmaps := (\<lambda>_. 0)(ER := 524288),
      groups := (groups qfq_init_qdisc)
        (19 := \<lparr>grp_S = 0, grp_F = 4398046511104, slot_shift = 41, index = 19,
                front = 0, full_slots = 1, slots = (\<lambda>_. [])(0 := [10, 20])\<rparr>),
      v_last_updated := 9800,
      work_queue := (\<lambda>_. [])(0 := []),
      classes := (\<lambda>_. zero_class)
        (20 := \<lparr>cl_S = 1315333734, cl_F = 4399361844838, grp = 19,
                 inv_w = 1073741824, lmax = 2048, qdisc = [4096]\<rparr>,
         10 := \<lparr>cl_S = 1315333734, cl_F = 21991547889254, grp = 19,
                 inv_w = 1073741824, lmax = 2048, qdisc = [20480, 20480]\<rparr>),
      clhash := [20, 10], sch_qlen := 2\<rparr>"

text \<open>
  After the first packet of class 10 is dequeued at the same clock reading: its
  start time has moved ten slots on and it sits in slot 10.
\<close>

definition c1_s2 :: qfq_sched where
  "c1_s2 = c1_s1
     \<lparr>groups := (groups qfq_init_qdisc)
        (19 := \<lparr>grp_S = 0, grp_F = 4398046511104, slot_shift = 41, index = 19,
                front = 0, full_slots = 1025,
                slots = (\<lambda>_. [])(0 := [20], 10 := [10])\<rparr>),
      v_diff_sum := 2243901281, t_diff_sum := 16718,
      classes := (\<lambda>_. zero_class)
        (20 := \<lparr>cl_S = 1315333734, cl_F = 4399361844838, grp = 19,
                 inv_w = 1073741824, lmax = 2048, qdisc = [4096]\<rparr>,
         10 := \<lparr>cl_S = 21991547889254, cl_F = 43981780444774, grp = 19,
                 inv_w = 1073741824, lmax = 2048, qdisc = [20480]\<rparr>)\<rparr>"

text \<open>
  After the packet of class 20 is dequeued: class 20 is idle with \<open>F = 4399361844838\<close>,
  group 19 starts at the slot of class 10, ten slots after \<open>V\<close>, and is in IR.
\<close>

definition c1_s3 :: qfq_sched where
  "c1_s3 = c1_s2
     \<lparr>wsum_active := 1,
      bitmaps := (\<lambda>_. 0)(IR := 524288),
      groups := (groups qfq_init_qdisc)
        (19 := \<lparr>grp_S = 21990232555520, grp_F = 26388279066624, slot_shift = 41,
                index = 19, front = 10, full_slots = 1,
                slots = (\<lambda>_. [])(10 := [10])\<rparr>),
      v_diff_sum := 2692681537, t_diff_sum := 20061,
      classes := (\<lambda>_. zero_class)
        (20 := \<lparr>cl_S = 4399361844838, cl_F = 4399361844838, grp = 19,
                 inv_w = 1073741824, lmax = 2048, qdisc = []\<rparr>,
         10 := \<lparr>cl_S = 21991547889254, cl_F = 43981780444774, grp = 19,
                 inv_w = 1073741824, lmax = 2048, qdisc = [20480]\<rparr>),
      sch_qlen := 1\<rparr>"

text \<open>
  After a packet of 1500 bytes is enqueued for class 20 and the clock is advanced at
  time 20000000, as \<open>qfq_spinner_activate_classes\<close> does before it activates: \<open>V\<close> has
  crossed one slot boundary of group 19 and \<open>qfq_make_eligible\<close> has moved the group to
  ER, nine slots before its start time.
\<close>

definition c1_s4 :: qfq_sched where
  "c1_s4 = c1_s3
     \<lparr>V := 2684354698880,
      bitmaps := (\<lambda>_. 0)(ER := 524288),
      v_last_updated := 20000000, v_diff_sum := 0, t_diff_sum := 0,
      work_bitmap := 1, work_queue := (\<lambda>_. [])(0 := [(20, 1500)]),
      classes := (\<lambda>_. zero_class)
        (20 := \<lparr>cl_S = 4399361844838, cl_F = 4399361844838, grp = 19,
                 inv_w = 1073741824, lmax = 2048, qdisc = [1500]\<rparr>,
         10 := \<lparr>cl_S = 21991547889254, cl_F = 43981780444774, grp = 19,
                 inv_w = 1073741824, lmax = 2048, qdisc = [20480]\<rparr>)\<rparr>"

section \<open>Constants unfolded\<close>

lemmas qfq_consts =
  QFQ_MAX_SLOTS_def QFQ_MAX_INDEX_def QFQ_MAX_WSHIFT_def QFQ_MAX_WEIGHT_def
  QFQ_MAX_WSUM_def FRAC_BITS_def ONE_FP_def QFQ_MTU_SHIFT_def QFQ_MIN_SLOT_SHIFT_def
  LINK_SPEED_def NSEC_PER_SEC_def

lemmas qfq_states = ER_def IR_def EB_def IB_def

section \<open>Facts about the bit scans\<close>

lemma highest_bit_below_spec:
  "\<exists>k<n. bit w k \<Longrightarrow>
     bit w (highest_bit_below n w) \<and> highest_bit_below n w < n \<and>
     (\<forall>j. highest_bit_below n w < j \<and> j < n \<longrightarrow> \<not> bit w j)"
proof (induction n)
  case 0
  then show ?case by simp
next
  case (Suc n)
  show ?case
  proof (cases "bit w n")
    case True
    then show ?thesis by auto
  next
    case False
    with Suc.prems have "\<exists>k<n. bit w k"
      by (metis less_Suc_eq)
    from Suc.IH [OF this] False show ?thesis
      by (auto simp: less_Suc_eq)
  qed
qed

lemma lowest_bit_from_spec:
  "\<exists>k. i \<le> k \<and> k < i + n \<and> bit w k \<Longrightarrow>
     bit w (lowest_bit_from n i w) \<and> i \<le> lowest_bit_from n i w \<and>
     lowest_bit_from n i w < i + n \<and>
     (\<forall>j. i \<le> j \<and> j < lowest_bit_from n i w \<longrightarrow> \<not> bit w j)"
proof (induction n arbitrary: i)
  case 0
  then show ?case by auto
next
  case (Suc n)
  show ?case
  proof (cases "bit w i")
    case True
    then show ?thesis by auto
  next
    case False
    from Suc.prems obtain k where k: "i \<le> k" "k < i + Suc n" "bit w k"
      by blast
    with False have "k \<noteq> i" by auto
    with k have "\<exists>k. Suc i \<le> k \<and> k < Suc i + n \<and> bit w k"
      by (intro exI [of _ k]) auto
    from Suc.IH [OF this] False show ?thesis
      by (auto simp: Suc_le_eq dest: le_neq_implies_less)
  qed
qed

lemma word_nonzero_bit:
  fixes w :: "'a::len word"
  assumes "w \<noteq> 0"
  shows "\<exists>k<LENGTH('a). bit w k"
proof (rule ccontr)
  assume "\<not> (\<exists>k<LENGTH('a). bit w k)"
  then have "w = 0"
    by (intro bit_eqI) (auto dest: bit_imp_le_length)
  with assms show False by simp
qed

lemma k_ffs_spec:
  assumes "w \<noteq> 0"
  shows "bit w (k_ffs w)" and "k_ffs w < 64" and "\<And>j. j < k_ffs w \<Longrightarrow> \<not> bit w j"
proof -
  from word_nonzero_bit [OF assms] have "\<exists>k. 0 \<le> k \<and> k < 0 + 64 \<and> bit w k"
    by auto
  from lowest_bit_from_spec [OF this]
  show "bit w (k_ffs w)" and "k_ffs w < 64" and "\<And>j. j < k_ffs w \<Longrightarrow> \<not> bit w j"
    by (auto simp: k_ffs_def)
qed

lemma k_fls_spec:
  assumes "w \<noteq> 0"
  shows "bit w (k_fls w)" and "k_fls w < 64" and "\<And>j. k_fls w < j \<Longrightarrow> \<not> bit w j"
proof -
  from word_nonzero_bit [OF assms] have "\<exists>k<64. bit w k"
    by auto
  from highest_bit_below_spec [OF this]
  have *: "bit w (k_fls w)" "k_fls w < 64" "\<forall>j. k_fls w < j \<and> j < 64 \<longrightarrow> \<not> bit w j"
    by (auto simp: k_fls_def)
  show "bit w (k_fls w)" and "k_fls w < 64" by (rule *)+
  fix j assume "k_fls w < j"
  with * show "\<not> bit w j"
    by (cases "j < 64") (auto dest: bit_imp_le_length)
qed

lemma bit_le_unat: 
  assumes "bit (w::'a::len word) k" shows "2 ^ k \<le> unat w"
proof -
  from assms have "bit (unat w) k"
    by (simp add: bit_unsigned_iff)
  then have "odd (unat w div 2 ^ k)"
    by (simp add: bit_iff_odd)
  then have "unat w div 2 ^ k \<noteq> 0"
    by (intro notI) simp
  then show ?thesis
    by (simp add: div_eq_0_iff not_less)
qed

lemma nobits_unat_less:
  fixes w :: "'a::len word"
  assumes "\<And>j. k < j \<Longrightarrow> \<not> bit w j"
  shows "unat w < 2 ^ Suc k"
proof -
  have "take_bit (Suc k) w = w"
    using assms by (intro bit_eqI) (auto simp: bit_take_bit_iff not_less Suc_le_eq intro: ccontr)
  then show ?thesis
    by (metis unsigned_take_bit_eq take_bit_nat_eq_self_iff)
qed

lemma floorlog_2_eq: "2 ^ k \<le> x \<Longrightarrow> x < 2 ^ Suc k \<Longrightarrow> floorlog 2 x = Suc k"
  by (metis One_nat_def floorlog_ge_SucI floorlog_leI le_antisym lessI
    less_or_eq_imp_le numeral_2_eq_2 zero_less_Suc)

lemma k_fls_floorlog: "w \<noteq> 0 \<Longrightarrow> floorlog 2 (unat w) = Suc (k_fls w)"
  by (intro floorlog_2_eq bit_le_unat nobits_unat_less k_fls_spec)

lemma unat_ucast_32_64: "unat (ucast (x :: u32) :: u64) = unat x"
proof -
  have "unat x < 2 ^ 32" using unsigned_less [of x] by simp
  then have "unat x < 2 ^ 64" by simp
  then show ?thesis
    by (simp add: unsigned_ucast_eq take_bit_nat_eq_self)
qed

lemma slot_size_unat:
  "unat ((ucast (maxlen :: u32) :: u64) * ucast (iw :: u32)) = unat maxlen * unat iw"
proof -
  have "unat maxlen < 2 ^ 32" "unat iw < 2 ^ 32"
    using unsigned_less [of maxlen] unsigned_less [of iw] by simp_all
  then have "unat maxlen * unat iw < 2 ^ 32 * 2 ^ 32"
    by (intro mult_strict_mono) simp_all
  then show ?thesis
    by (simp add: unat_word_ariths unat_ucast_32_64)
qed

lemma unat_push_bit_1:
  assumes "k < 64"
  shows "unat (push_bit k 1 :: u64) = 2 ^ k"
  using assms unsigned_push_bit_eq [of k "1 :: u64", where ?'a = nat]
  by (simp del: push_bit_of_1)

lemma push_bit_1_eq: "k < 64 \<Longrightarrow> ((w :: u64) - push_bit k 1 = 0) = (unat w = 2 ^ k)"
  using word_unat_eq_iff [of w "push_bit k 1"] by (simp add: unat_push_bit_1 del: push_bit_of_1)

lemma qfq_calc_index_nat:
  "qfq_calc_index iw ml =
     (let slot_size = unat ml * unat iw;
          size_map = slot_size div 2 ^ QFQ_MIN_SLOT_SHIFT;
          i = floorlog 2 size_map
      in if unat iw = 2 ^ FRAC_BITS + 1 \<or> size_map = 0 then 0
         else if slot_size = 2 ^ (i + QFQ_MIN_SLOT_SHIFT - 1) then int i - 1 else int i)"
proof -
  define ss :: u64 where "ss = ucast ml * ucast iw"
  define sm :: u64 where "sm = drop_bit QFQ_MIN_SLOT_SHIFT ss"
  have ss: "unat ss = unat ml * unat iw"
    by (simp add: ss_def slot_size_unat)
  have sm: "unat sm = unat ml * unat iw div 2 ^ QFQ_MIN_SLOT_SHIFT"
    unfolding sm_def unat_drop_bit_eq ss by (simp add: drop_bit_eq_div)
  have sent: "((ucast iw :: ulong) = ONE_FP + 1) = (unat iw = 2 ^ FRAC_BITS + 1)"
    using word_unat_eq_iff [of "ucast iw :: ulong" "ONE_FP + 1"]
    by (simp add: unat_ucast_32_64 qfq_consts)
  have sm0: "(sm = 0) = (unat sm = 0)"
    by (simp add: unat_eq_0)
  show ?thesis
  proof (cases "sm = 0")
    case True
    then show ?thesis
      using sm sm0 unfolding qfq_calc_index_def Let_def sent ss_def [symmetric] sm_def [symmetric]
      by simp
  next
    case False
    then have fl: "floorlog 2 (unat sm) = Suc (k_fls sm)" and k: "k_fls sm < 64"
      by (simp_all add: k_fls_floorlog k_fls_spec)
    have shift: "nat (int (k_fls sm) + 1 + int QFQ_MIN_SLOT_SHIFT - 1) = k_fls sm + QFQ_MIN_SLOT_SHIFT"
      by simp
    have "2 ^ k_fls sm \<le> unat sm"
      using False by (intro bit_le_unat k_fls_spec)
    also have "unat sm < 2 ^ 42"
      using unsigned_less [of ss, where ?'a = nat]
      unfolding sm_def unat_drop_bit_eq
      by (simp add: drop_bit_eq_div qfq_consts less_mult_imp_div_less)
    finally have "(2::nat) ^ k_fls sm < 2 ^ 42" .
    then have "k_fls sm < 42"
      by (rule power_less_imp_less_exp [of 2, rotated]) simp
    then have lt: "k_fls sm + QFQ_MIN_SLOT_SHIFT < 64"
      by (simp add: qfq_consts)
    show ?thesis
      using False sm sm0 fl ss
      unfolding qfq_calc_index_def Let_def sent ss_def [symmetric] sm_def [symmetric] shift
        push_bit_1_eq [OF lt]
      by (auto simp: )
  qed
qed


section \<open>The group index\<close>

text \<open>
  Claim C6. For every \<open>inv_w\<close> and \<open>lmax\<close>, with \<open>slot_size = lmax * inv_w\<close> and
  \<open>size_map = slot_size >> QFQ_MIN_SLOT_SHIFT\<close>: \<open>qfq_calc_index\<close> returns 0 when
  \<open>inv_w\<close> is the weight-zero sentinel \<open>ONE_FP + 1\<close> or \<open>size_map\<close> is 0; otherwise it
  returns \<open>i = floor (log2 size_map) + 1\<close>, which is \<open>floorlog 2 size_map\<close>, less one
  exactly when \<open>slot_size = 2 ^ (i + QFQ_MIN_SLOT_SHIFT - 1)\<close>; the result is never
  negative.
\<close>

theorem qfq_calc_index_spec:
  "let slot_size = unat ml * unat iw;
       size_map = slot_size div 2 ^ QFQ_MIN_SLOT_SHIFT;
       i = floorlog 2 size_map
   in (ucast iw = ONE_FP + 1 \<or> size_map = 0 \<longrightarrow> qfq_calc_index iw ml = 0) \<and>
      (ucast iw \<noteq> ONE_FP + 1 \<and> size_map \<noteq> 0 \<longrightarrow>
         qfq_calc_index iw ml =
           (if slot_size = 2 ^ (i + QFQ_MIN_SLOT_SHIFT - 1) then int i - 1 else int i)) \<and>
      0 \<le> qfq_calc_index iw ml"
proof -
  have sent: "((ucast iw :: ulong) = ONE_FP + 1) = (unat iw = 2 ^ FRAC_BITS + 1)"
    using word_unat_eq_iff [of "ucast iw :: ulong" "ONE_FP + 1"]
    by (simp add: unat_ucast_32_64 qfq_consts)
  have pos: "0 < floorlog 2 n" if "n \<noteq> 0" for n
    using that by (simp add: floorlog_def)
  show ?thesis
    unfolding sent qfq_calc_index_nat [of iw ml] Let_def
    using pos [of "unat ml * unat iw div 2 ^ QFQ_MIN_SLOT_SHIFT"]
    by auto
qed

theorem qfq_calc_index_spec_witness:
  "(ucast (1073741824 :: u32) :: ulong) \<noteq> ONE_FP + 1 \<and>
   unat (2048 :: u32) * unat (1073741824 :: u32) div 2 ^ QFQ_MIN_SLOT_SHIFT \<noteq> 0 \<and>
   qfq_calc_index 1073741824 2048 = 19 \<and>
   qfq_calc_index 1073741825 2048 = 0 \<and>
   qfq_calc_index 16384 1 = 0 \<and>
   qfq_calc_index 1073741824 1500 = 19"
  using qfq_calc_index_spec [of 2048 1073741824] qfq_calc_index_spec [of 2048 1073741825]
    qfq_calc_index_spec [of 1 16384] qfq_calc_index_spec [of 1500 1073741824]
  by (simp add: qfq_consts Let_def compute_floorlog)

lemma unat_inv_w_of_weight:
  assumes "weight \<noteq> 0"
  shows "unat (inv_w_of_weight weight) = 2 ^ FRAC_BITS div unat weight"
proof -
  have "unat (ONE_FP div ucast weight) = 2 ^ FRAC_BITS div unat weight"
    by (simp add: unat_div unat_ucast_32_64 qfq_consts)
  moreover have "(2::nat) ^ FRAC_BITS div unat weight < 2 ^ 32"
    by (rule le_less_trans [OF div_le_dividend]) (simp add: qfq_consts)
  ultimately show ?thesis
    using assms by (simp add: inv_w_of_weight_def unsigned_ucast_eq take_bit_nat_eq_self)
qed

text \<open>
  Claim C10. For every weight in \<open>[1, 2 ^ QFQ_MAX_WSHIFT]\<close>, with
  \<open>inv_w = ONE_FP / weight\<close>, and every \<open>lmax\<close> in \<open>[1, 2 ^ QFQ_MTU_SHIFT]\<close>, the index
  computed by \<open>qfq_calc_index\<close> lies in \<open>[0, QFQ_MAX_INDEX]\<close>, inside the array of
  groups.
\<close>

theorem qfq_calc_index_in_bounds:
  assumes "1 \<le> unat weight" and "unat weight \<le> 2 ^ QFQ_MAX_WSHIFT"
    and "1 \<le> unat ml" and "unat ml \<le> 2 ^ QFQ_MTU_SHIFT"
  shows "0 \<le> qfq_calc_index (inv_w_of_weight weight) ml \<and>
         qfq_calc_index (inv_w_of_weight weight) ml \<le> int QFQ_MAX_INDEX"
proof -
  from assms(1) have "weight \<noteq> 0" by auto
  then have iw: "unat (inv_w_of_weight weight) = 2 ^ 30 div unat weight"
    by (simp add: unat_inv_w_of_weight qfq_consts)
  define ss where "ss = unat ml * unat (inv_w_of_weight weight)"
  have "unat (inv_w_of_weight weight) \<le> 2 ^ 30"
    unfolding iw by (rule div_le_dividend)
  with assms(4) have "ss \<le> 2 ^ 11 * 2 ^ 30"
    unfolding ss_def by (intro mult_mono) (simp_all add: qfq_consts)
  then have ss: "ss \<le> 2 ^ 41" by simp
  define i where "i = floorlog 2 (ss div 2 ^ 22)"
  have "ss div 2 ^ 22 < 2 ^ 20"
    using ss by (simp add: less_mult_imp_div_less)
  then have i20: "i \<le> 20"
    unfolding i_def by (intro floorlog_leI) simp_all
  have "ss = 2 ^ 41" if "i = 20"
  proof -
    have "0 < ss div 2 ^ 22"
      using that by (auto simp: i_def floorlog_def split: if_splits)
    from floorlog_bounds [OF this, of 2] that have "2 ^ 19 \<le> ss div 2 ^ 22"
      by (simp add: i_def)
    then have "2 ^ 19 * 2 ^ 22 \<le> ss"
      by (simp add: less_eq_div_iff_mult_less_eq)
    with ss show ?thesis by simp
  qed
  then have hi: "i = 20 \<Longrightarrow> ss = 2 ^ (i + 22 - 1)"
    by simp
  have pos: "0 < i" if "ss div 2 ^ 22 \<noteq> 0"
    using that by (simp add: i_def floorlog_def)
  have r: "qfq_calc_index (inv_w_of_weight weight) ml =
     (if unat (inv_w_of_weight weight) = 2 ^ 30 + 1 \<or> ss div 2 ^ 22 = 0 then 0
      else if ss = 2 ^ (i + 22 - 1) then int i - 1 else int i)"
    unfolding qfq_calc_index_nat [of "inv_w_of_weight weight" ml] Let_def ss_def i_def
    by (simp add: qfq_consts)
  show ?thesis
  proof (cases "i = 20")
    case True
    with hi have "ss = 2 ^ (i + 22 - 1)" by simp
    with True show ?thesis
      unfolding r by (simp add: qfq_consts)
  next
    case False
    with i20 have "i \<le> 19" by simp
    with pos show ?thesis
      unfolding r by (auto simp: qfq_consts)
  qed
qed

theorem qfq_calc_index_in_bounds_witness:
  "1 \<le> unat (1 :: u32) \<and> unat (1 :: u32) \<le> 2 ^ QFQ_MAX_WSHIFT \<and>
   1 \<le> unat (2048 :: u32) \<and> unat (2048 :: u32) \<le> 2 ^ QFQ_MTU_SHIFT \<and>
   0 \<le> qfq_calc_index (inv_w_of_weight 1) 2048 \<and>
   qfq_calc_index (inv_w_of_weight 1) 2048 \<le> int QFQ_MAX_INDEX"
  using qfq_calc_index_in_bounds [of 1 2048]
  by (simp add: qfq_consts)


section \<open>Evaluation on concrete states\<close>

lemma highest_bit_below_numeral:
  "highest_bit_below (numeral k) w =
     (if bit w (pred_numeral k) then pred_numeral k else highest_bit_below (pred_numeral k) w)"
  by (simp add: numeral_eq_Suc)

lemma lowest_bit_from_step:
  "lowest_bit_from (numeral k) i w =
     (if bit w i then i else lowest_bit_from (pred_numeral k) (Suc i) w)"
  by (simp add: numeral_eq_Suc)

lemma lowest_bit_from_numeral:
  "lowest_bit_from (numeral k) 0 w =
     (if bit w 0 then 0 else lowest_bit_from (pred_numeral k) (Suc 0) w)"
  "lowest_bit_from (numeral k) (Suc 0) w =
     (if bit w (Suc 0) then Suc 0 else lowest_bit_from (pred_numeral k) 2 w)"
  "lowest_bit_from (numeral k) (numeral i) w =
     (if bit w (numeral i) then numeral i
      else lowest_bit_from (pred_numeral k) (numeral (Num.inc i)) w)"
proof -
  have "Suc (Suc 0) = 2" and "Suc (numeral i) = numeral (Num.inc i)"
    by (simp_all add: numeral_inc)
  then show "lowest_bit_from (numeral k) 0 w =
     (if bit w 0 then 0 else lowest_bit_from (pred_numeral k) (Suc 0) w)"
    and "lowest_bit_from (numeral k) (Suc 0) w =
     (if bit w (Suc 0) then Suc 0 else lowest_bit_from (pred_numeral k) 2 w)"
    and "lowest_bit_from (numeral k) (numeral i) w =
     (if bit w (numeral i) then numeral i
      else lowest_bit_from (pred_numeral k) (numeral (Num.inc i)) w)"
    by (simp_all only: lowest_bit_from_step [of k _ w])
qed

lemmas qfq_eval = class_upd_def group_upd_def bitmap_upd_def
  k_fls_def k_ffs_def zero_class_def zero_group_def qfq_init_qdisc_def
  highest_bit_below_numeral lowest_bit_from_numeral
  qfq_gt_def qfq_round_down_def mask_from_def qfq_ffs_def
  qfq_states set_bit_eq_or unset_bit_eq_and_not qfq_consts Let_def

section \<open>The state of a group\<close>

lemma bit_mask_from: "bit (mask_from b n) j \<longleftrightarrow> bit b j \<and> n \<le> j"
proof -
  have "(push_bit n 1 - 1 :: ulong) = mask n"
    by (simp add: mask_eq_exp_minus_1)
  then show ?thesis
    by (auto simp: mask_from_def bit_and_iff bit_not_iff bit_mask_iff not_less
        dest: bit_imp_le_length)
qed

lemma mask_from_lowest:
  assumes "mask_from b n \<noteq> 0"
  shows "bit b (k_ffs (mask_from b n))" and "n \<le> k_ffs (mask_from b n)"
    and "\<And>k. n \<le> k \<Longrightarrow> k < k_ffs (mask_from b n) \<Longrightarrow> \<not> bit b k"
  using k_ffs_spec [OF assms] by (auto simp: bit_mask_from)

lemma mask_from_eq_0: "mask_from b n = 0 \<longleftrightarrow> (\<forall>j\<ge>n. \<not> bit b j)"
proof
  assume "mask_from b n = 0"
  then have "\<not> bit (mask_from b n) j" for j by simp
  then show "\<forall>j\<ge>n. \<not> bit b j" by (auto simp: bit_mask_from)
next
  assume "\<forall>j\<ge>n. \<not> bit b j"
  then show "mask_from b n = 0"
    by (intro bit_eqI) (auto simp: bit_mask_from)
qed

lemma lowest_ER_from_unique: "lowest_ER_from q n j \<Longrightarrow> lowest_ER_from q n j' \<Longrightarrow> j = j'"
  unfolding lowest_ER_from_def by (metis linorder_neqE_nat)

lemma lowest_ER_from_ffs:
  "mask_from (bitmaps q ER) n \<noteq> 0 \<Longrightarrow> lowest_ER_from q n (qfq_ffs q (mask_from (bitmaps q ER) n))"
  unfolding lowest_ER_from_def qfq_ffs_def using mask_from_lowest [of "bitmaps q ER" n] by auto

lemma lowest_ER_from_nonzero: "lowest_ER_from q n j \<Longrightarrow> mask_from (bitmaps q ER) n \<noteq> 0"
  unfolding lowest_ER_from_def mask_from_eq_0 by auto

lemma lowest_ER_fromI:
  "bit (bitmaps q ER) j \<Longrightarrow> n \<le> j \<Longrightarrow> (\<And>k. n \<le> k \<Longrightarrow> k < j \<Longrightarrow> \<not> bit (bitmaps q ER) k)
     \<Longrightarrow> lowest_ER_from q n j"
  by (simp add: lowest_ER_from_def)

lemma c3_own_bit_state: "qfq_calc_state c3_own_bit 2 = 0"
  by (simp add: qfq_calc_state_def c3_own_bit_def c3_blocked_def qfq_eval)

lemma c3_blocked_state: "qfq_calc_state c3_blocked 2 = 2"
  by (simp add: qfq_calc_state_def c3_blocked_def qfq_eval)

text \<open>
  Claim C3 as stated, with the blocking group sought among the strictly higher
  positions, fails where the group's own bit is set in ER: \<open>mask_from\<close> keeps the
  positions from \<open>index\<close> upward, the group itself is then the lowest one found, and the
  comparison of its \<open>F\<close> with itself is false.
\<close>

theorem qfq_calc_state_strict_counterexample:
  "\<not> (bit (qfq_calc_state c3_own_bit 2) 1 \<longleftrightarrow>
      (\<exists>j. lowest_ER_from c3_own_bit (unat (index (groups c3_own_bit 2)) + 1) j \<and>
           qfq_gt (grp_F (groups c3_own_bit 2)) (grp_F (groups c3_own_bit j))))"
proof -
  have "lowest_ER_from c3_own_bit (unat (index (groups c3_own_bit 2)) + 1) 3"
    by (rule lowest_ER_fromI) (simp_all add: c3_own_bit_def c3_blocked_def qfq_eval)
  moreover have "qfq_gt (grp_F (groups c3_own_bit 2)) (grp_F (groups c3_own_bit 3))"
    by (simp add: c3_own_bit_def c3_blocked_def qfq_eval)
  ultimately show ?thesis
    by (auto simp: c3_own_bit_state)
qed

text \<open>
  Claim C3, amended. The low bit of \<open>qfq_calc_state\<close> is 1 exactly when
  \<open>qfq_gt (S g) V\<close>; the blocked bit (value 2) is set exactly when some group at a
  position from \<open>index g\<close> upward is in ER and the lowest such group \<open>next\<close> has
  \<open>qfq_gt (F g) (F next)\<close>; no other bit is set.
\<close>

theorem qfq_calc_state_spec:
  "(bit (qfq_calc_state q gi) 0 \<longleftrightarrow> qfq_gt (grp_S (groups q gi)) (V q)) \<and>
   (bit (qfq_calc_state q gi) 1 \<longleftrightarrow>
      (\<exists>j. lowest_ER_from q (unat (index (groups q gi))) j \<and>
           qfq_gt (grp_F (groups q gi)) (grp_F (groups q j)))) \<and>
   qfq_calc_state q gi < 4"
proof -
  define n where "n = unat (index (groups q gi))"
  define m where "m = mask_from (bitmaps q ER) n"
  have blocked: "(\<exists>j. lowest_ER_from q n j \<and> qfq_gt (grp_F (groups q gi)) (grp_F (groups q j)))
     \<longleftrightarrow> m \<noteq> 0 \<and> qfq_gt (grp_F (groups q gi)) (grp_F (groups q (qfq_ffs q m)))"
    unfolding m_def
    using lowest_ER_from_ffs [of q n] lowest_ER_from_nonzero [of q n]
      lowest_ER_from_unique [of q n]
    by blast
  show ?thesis
    unfolding blocked [unfolded n_def m_def]
    by (simp add: qfq_calc_state_def Let_def EB_def bit_or_iff)
qed


theorem qfq_calc_state_spec_witness:
  "qfq_calc_state c3_blocked 2 = 2 \<and>
   (\<exists>j. lowest_ER_from c3_blocked (unat (index (groups c3_blocked 2))) j \<and>
        qfq_gt (grp_F (groups c3_blocked 2)) (grp_F (groups c3_blocked j))) \<and>
   qfq_calc_state c3_own_bit 2 = 0 \<and>
   \<not> (\<exists>j. lowest_ER_from c3_own_bit (unat (index (groups c3_own_bit 2))) j \<and>
        qfq_gt (grp_F (groups c3_own_bit 2)) (grp_F (groups c3_own_bit j)))"
  using qfq_calc_state_spec [of c3_blocked 2] qfq_calc_state_spec [of c3_own_bit 2]
  by (simp add: c3_blocked_state c3_own_bit_state)

section \<open>The start time of a class that becomes backlogged\<close>

text \<open>
  Claim C5. With \<open>roundedF = round_down (F cl) slot_shift\<close> and
  \<open>limit = round_down V slot_shift + 2 ^ slot_shift\<close>, the timestamp is stale when
  \<open>F cl\<close> is not after \<open>V\<close> or \<open>roundedF\<close> is after \<open>limit\<close> (both by \<open>qfq_gt\<close>). When
  it is stale and the lowest group \<open>next\<close> in ER at a position from the class's group
  upward has \<open>qfq_gt roundedF (F next)\<close>, \<open>qfq_update_start\<close> sets \<open>S cl\<close> to
  \<open>F next\<close> if \<open>qfq_gt limit (F next)\<close> and to \<open>limit\<close> otherwise; in the other stale
  cases to \<open>V\<close>; when it is not stale, to \<open>F cl\<close>. Nothing but \<open>S cl\<close> is written.
\<close>

theorem qfq_update_start_spec:
  "let c = classes q cl;
       g = groups q (grp c);
       shift = unat (slot_shift g);
       roundedF = qfq_round_down (cl_F c) shift;
       limit = qfq_round_down (V q) shift + 2 ^ shift;
       stale = (\<not> qfq_gt (cl_F c) (V q) \<or> qfq_gt roundedF limit);
       blocker = (\<lambda>j. lowest_ER_from q (unat (index g)) j \<and>
                      qfq_gt roundedF (grp_F (groups q j)));
       S' = cl_S (classes (qfq_update_start q cl) cl)
   in (\<forall>j. stale \<and> blocker j \<longrightarrow>
         S' = (if qfq_gt limit (grp_F (groups q j)) then grp_F (groups q j) else limit)) \<and>
      (stale \<and> (\<forall>j. \<not> blocker j) \<longrightarrow> S' = V q) \<and>
      (\<not> stale \<longrightarrow> S' = cl_F c) \<and>
      qfq_update_start q cl = class_upd cl (\<lambda>c. c\<lparr>cl_S := S'\<rparr>) q"
proof -
  define n where "n = unat (index (groups q (grp (classes q cl))))"
  define m where "m = mask_from (bitmaps q ER) n"
  have uniq: "j = qfq_ffs q m \<and> m \<noteq> 0" if "lowest_ER_from q n j" for j
    using that lowest_ER_from_ffs [of q n] lowest_ER_from_nonzero [of q n]
      lowest_ER_from_unique [of q n] unfolding m_def by blast
  have ex: "lowest_ER_from q n (qfq_ffs q m)" if "m \<noteq> 0"
    using that lowest_ER_from_ffs [of q n] unfolding m_def by blast
  show ?thesis
    unfolding Let_def n_def [symmetric]
    using uniq ex
    by (auto simp: qfq_update_start_def Let_def class_upd_def n_def [symmetric] m_def [symmetric])
qed

theorem qfq_update_start_spec_witness:
  "qfq_gt (qfq_round_down (cl_F (classes c5_state 7)) 24)
          (qfq_round_down (V c5_state) 24 + 2 ^ 24) \<and>
   lowest_ER_from c5_state 2 3 \<and>
   qfq_gt (qfq_round_down (cl_F (classes c5_state 7)) 24) (grp_F (groups c5_state 3)) \<and>
   cl_S (classes (qfq_update_start c5_state 7) 7) = grp_F (groups c5_state 3)"
proof -
  have low: "lowest_ER_from c5_state 2 3"
  proof (rule lowest_ER_fromI)
    fix k :: nat
    assume "2 \<le> k" and "k < 3"
    then have "k = 2" by simp
    then show "\<not> bit (bitmaps c5_state ER) k"
      by (simp add: c5_state_def c3_blocked_def qfq_eval)
  qed (simp_all add: c5_state_def c3_blocked_def qfq_eval)
  have vals: "grp (classes c5_state 7) = 2" "unat (slot_shift (groups c5_state 2)) = 24"
    "unat (index (groups c5_state 2)) = 2"
    "qfq_gt (qfq_round_down (cl_F (classes c5_state 7)) 24)
          (qfq_round_down (V c5_state) 24 + 2 ^ 24)"
    "qfq_gt (qfq_round_down (cl_F (classes c5_state 7)) 24) (grp_F (groups c5_state 3))"
    "qfq_gt (qfq_round_down (V c5_state) 24 + 2 ^ 24) (grp_F (groups c5_state 3))"
    by (simp_all add: c5_state_def c3_blocked_def qfq_eval)
  from qfq_update_start_spec [of c5_state 7] low vals show ?thesis
    by (simp add: Let_def)
qed

section \<open>Insertion into the slot ring\<close>

lemma slot_index_unat:
  fixes fr :: u32 and slot :: u64
  assumes "unat slot < 32"
  shows "unat (ucast ((ucast fr + slot) mod 32) :: u32) = (unat fr + unat slot) mod 32"
proof -
  have fr: "unat fr < 2 ^ 32"
    using unsigned_less [of fr, where ?'a = nat] by simp
  with assms have "unat fr + unat slot < 2 ^ 64" by simp
  then have sum: "unat ((ucast fr :: u64) + slot) = unat fr + unat slot"
    by (simp add: unat_word_ariths unat_ucast_32_64)
  have "unat (((ucast fr :: u64) + slot) mod 32) = (unat fr + unat slot) mod 32"
    by (simp add: unat_mod sum)
  moreover have "(unat fr + unat slot) mod 32 < 2 ^ 32"
    by (rule less_trans [OF mod_less_divisor]) simp_all
  ultimately show ?thesis
    by (simp add: unsigned_ucast_eq take_bit_nat_eq_self)
qed

text \<open>
  Claim C8. With \<open>slot = (roundedS - S g) >> slot_shift\<close>: when \<open>slot\<close> is at least
  \<open>QFQ_MAX_SLOTS\<close>, \<open>qfq_slot_insert\<close> uses \<open>QFQ_MAX_SLOTS - 1\<close> in its place;
  otherwise \<open>slot\<close> itself. It puts the class at the head of the list at physical index
  \<open>(front + slot) mod QFQ_MAX_SLOTS\<close>, sets bit \<open>slot\<close> of \<open>full_slots\<close>, always returns,
  and changes nothing else of the scheduler.
\<close>

theorem qfq_slot_insert_spec:
  "let g = groups q gi;
       slot = unat (drop_bit (unat (slot_shift g)) (roundedS - grp_S g));
       s = (if slot \<ge> QFQ_MAX_SLOTS then QFQ_MAX_SLOTS - 1 else slot);
       i = (unat (front g) + s) mod QFQ_MAX_SLOTS
   in qfq_slot_insert q gi cl roundedS =
        q\<lparr>groups := (groups q)
             (gi := g\<lparr>slots := (slots g)(i := cl # slots g i),
                     full_slots := set_bit s (full_slots g)\<rparr>)\<rparr>"
proof -
  define g where "g = groups q gi"
  define slot :: u64 where "slot = drop_bit (unat (slot_shift g)) (roundedS - grp_S g)"
  have ge: "(slot \<ge> 32) = (unat slot \<ge> 32)"
    by (simp add: word_le_nat_alt)
  show ?thesis
  proof (cases "unat slot \<ge> 32")
    case True
    have "unat (ucast ((ucast (front g) + (31 :: u64)) mod 32) :: u32) = (unat (front g) + 31) mod 32"
      using slot_index_unat [of 31 "front g"] by simp
    with True show ?thesis
      unfolding qfq_slot_insert_def Let_def g_def [symmetric] slot_def [symmetric]
      by (simp add: qfq_consts ge group_upd_def g_def)
  next
    case False
    then have "unat (ucast ((ucast (front g) + slot) mod 32) :: u32) = (unat (front g) + unat slot) mod 32"
      using slot_index_unat [of slot "front g"] by simp
    with False show ?thesis
      unfolding qfq_slot_insert_def Let_def g_def [symmetric] slot_def [symmetric]
      by (simp add: qfq_consts ge group_upd_def g_def)
  qed
qed


theorem qfq_slot_insert_spec_witness:
  "unat (drop_bit (unat (slot_shift (groups c5_state 2)))
          (738197504 - grp_S (groups c5_state 2))) = 40 \<and>
   slots (groups (qfq_slot_insert c5_state 2 7 738197504) 2) 31 = [7] \<and>
   full_slots (groups (qfq_slot_insert c5_state 2 7 738197504) 2) = 2147483649 \<and>
   unat (drop_bit (unat (slot_shift (groups c5_state 2)))
          (117440512 - grp_S (groups c5_state 2))) = 3 \<and>
   slots (groups (qfq_slot_insert c5_state 2 7 117440512) 2) 3 = [7] \<and>
   full_slots (groups (qfq_slot_insert c5_state 2 7 117440512) 2) = 9"
proof -
  have vals: "unat (slot_shift (groups c5_state 2)) = 24" "grp_S (groups c5_state 2) = 67108864"
    "front (groups c5_state 2) = 0" "full_slots (groups c5_state 2) = 1"
    "slots (groups c5_state 2) = (\<lambda>_. [])"
    by (simp_all add: c5_state_def c3_blocked_def qfq_eval)
  from qfq_slot_insert_spec [of c5_state 2 738197504 7]
    qfq_slot_insert_spec [of c5_state 2 117440512 7]
  show ?thesis
    by (simp add: vals Let_def qfq_consts set_bit_eq_or)
qed

section \<open>Advancing the virtual clock\<close>

lemma qfq_move_groups_fields [simp]:
  "V (qfq_move_groups q m s d) = V q"
  "v_diff_sum (qfq_move_groups q m s d) = v_diff_sum q"
  "t_diff_sum (qfq_move_groups q m s d) = t_diff_sum q"
  "v_last_updated (qfq_move_groups q m s d) = v_last_updated q"
  "wsum_active (qfq_move_groups q m s d) = wsum_active q"
  "wsum (qfq_move_groups q m s d) = wsum q"
  "groups (qfq_move_groups q m s d) = groups q"
  "classes (qfq_move_groups q m s d) = classes q"
  by (simp_all add: qfq_move_groups_def bitmap_upd_def Let_def)

lemma qfq_update_eligible_fields [simp]:
  "V (qfq_update_eligible q v) = V q"
  "v_diff_sum (qfq_update_eligible q v) = v_diff_sum q"
  "t_diff_sum (qfq_update_eligible q v) = t_diff_sum q"
  "v_last_updated (qfq_update_eligible q v) = v_last_updated q"
  "wsum_active (qfq_update_eligible q v) = wsum_active q"
  "wsum (qfq_update_eligible q v) = wsum q"
  "groups (qfq_update_eligible q v) = groups q"
  "classes (qfq_update_eligible q v) = classes q"
  by (simp_all add: qfq_update_eligible_def qfq_make_eligible_def Let_def)

text \<open>
  The quotients of the clock update are taken after a u64 product. As long as the product
  of the two factors stays below \<open>2 ^ 64\<close>, the machine value is the quotient of the
  natural numbers; for the drain term this is the case for \<open>dt\<close> up to about 14 seconds.
\<close>

lemma u64_mul_div_exact:
  fixes a b c :: u64
  assumes "unat a * unat b < 2 ^ 64"
  shows "unat (a * b div c) = unat a * unat b div unat c"
proof -
  from assms have "unat (a * b) = unat a * unat b"
    by (simp add: unat_word_ariths)
  then show ?thesis
    by (simp add: unat_div)
qed

text \<open>
  The cases of \<open>qfq_update_system_time\<close> for a call with
  \<open>now \<noteq> v_last_updated\<close>, every term being the u64 term of the source.
\<close>

lemma qfq_update_system_time_cases:
  assumes "0 < now - v_last_updated q"
  shows
  "let dt = now - v_last_updated q;
       m = (ucast (max (of_nat LINK_SPEED) (wsum_active q)) :: u64);
       q' = qfq_update_system_time q now
   in (t_diff_sum q \<noteq> 0 \<and> t_diff_sum q \<le> dt \<longrightarrow>
         V q' = V q + v_diff_sum q +
                (if bitmaps q ER = 0 then QFQ_DRAIN_RATE * (dt - t_diff_sum q) div m else 0) \<and>
         v_diff_sum q' = 0 \<and> t_diff_sum q' = 0) \<and>
      (t_diff_sum q \<noteq> 0 \<and> dt < t_diff_sum q \<longrightarrow>
         V q' = V q + v_diff_sum q * dt div t_diff_sum q \<and>
         v_diff_sum q' = v_diff_sum q - v_diff_sum q * dt div t_diff_sum q \<and>
         t_diff_sum q' = t_diff_sum q - dt) \<and>
      (t_diff_sum q = 0 \<longrightarrow>
         V q' = V q + (if bitmaps q ER = 0 then QFQ_DRAIN_RATE * dt div m else 0) \<and>
         v_diff_sum q' = v_diff_sum q \<and> t_diff_sum q' = 0) \<and>
      v_last_updated q' = now"
proof -
  from assms have ne: "v_last_updated q \<noteq> now"
    by auto
  show ?thesis
    using ne by (auto simp: qfq_update_system_time_def Let_def not_le)
qed

lemma unat_drain_divisor:
  "unat (ucast (max (of_nat LINK_SPEED) (wa :: u32)) :: u64) = max LINK_SPEED (unat wa)"
  by (simp add: unat_ucast_32_64 max_def word_le_nat_alt LINK_SPEED_def)

lemma unat_drain_exact:
  assumes "unat QFQ_DRAIN_RATE * unat t < 2 ^ 64"
  shows "unat (QFQ_DRAIN_RATE * t div ucast (max (of_nat LINK_SPEED) (wa :: u32))) =
         claimed_drain (unat t) (unat wa)"
  using u64_mul_div_exact [OF assms] by (simp add: unat_drain_divisor claimed_drain_def)

text \<open>
  As long as neither product leaves 64 bits, the clock moves by the quotients of
  natural numbers: with \<open>dt = now - v_last_updated > 0\<close>, \<open>V\<close> grows (modulo \<open>2 ^ 64\<close>)
  by \<open>v_diff_sum\<close>, plus the drain over \<open>dt - t_diff_sum\<close> exactly when ER is empty, if
  there is debt and \<open>dt \<ge> t_diff_sum\<close>; by \<open>v_diff_sum * dt / t_diff_sum\<close>, taken from
  \<open>v_diff_sum\<close> while \<open>dt\<close> is taken from \<open>t_diff_sum\<close>, if there is debt and
  \<open>dt < t_diff_sum\<close>; by the drain over \<open>dt\<close> when there is no debt and ER is empty, and by
  0 otherwise.
\<close>

lemma qfq_update_system_time_exact:
  assumes lt: "v_last_updated q < now"
    and drain: "unat QFQ_DRAIN_RATE * (unat now - unat (v_last_updated q)) < 2 ^ 64"
    and share: "unat (v_diff_sum q) * (unat now - unat (v_last_updated q)) < 2 ^ 64"
  shows
  "let dt = unat now - unat (v_last_updated q);
       t = unat (t_diff_sum q);
       v = unat (v_diff_sum q);
       wa = unat (wsum_active q);
       q' = qfq_update_system_time q now
   in (0 < t \<and> t \<le> dt \<longrightarrow>
         unat (V q') = (unat (V q) + v +
                          (if bitmaps q ER = 0 then claimed_drain (dt - t) wa else 0)) mod 2 ^ 64 \<and>
         v_diff_sum q' = 0 \<and> t_diff_sum q' = 0) \<and>
      (0 < t \<and> dt < t \<longrightarrow>
         unat (V q') = (unat (V q) + v * dt div t) mod 2 ^ 64 \<and>
         unat (v_diff_sum q') = v - v * dt div t \<and>
         unat (t_diff_sum q') = t - dt) \<and>
      (t = 0 \<longrightarrow>
         unat (V q') = (unat (V q) +
                          (if bitmaps q ER = 0 then claimed_drain dt wa else 0)) mod 2 ^ 64 \<and>
         v_diff_sum q' = v_diff_sum q \<and> t_diff_sum q' = 0) \<and>
      v_last_updated q' = now"
proof -
  define d where "d = now - v_last_updated q"
  from lt have le: "v_last_updated q \<le> now" by simp
  have ud: "unat d = unat now - unat (v_last_updated q)"
    unfolding d_def using le by (simp add: unat_sub)
  from lt have pos: "0 < now - v_last_updated q"
    by (simp add: word_neq_0_conv [symmetric])
  note cases = qfq_update_system_time_cases [OF pos, unfolded Let_def, folded d_def]
  have dr: "unat QFQ_DRAIN_RATE * unat d < 2 ^ 64"
    using drain by (simp add: ud)
  have sh: "unat (v_diff_sum q) * unat d < 2 ^ 64"
    using share by (simp add: ud)
  have c1: "unat (V (qfq_update_system_time q now)) =
              (unat (V q) + unat (v_diff_sum q) +
                 (if bitmaps q ER = 0
                  then claimed_drain (unat d - unat (t_diff_sum q)) (unat (wsum_active q))
                  else 0)) mod 2 ^ 64"
    if a: "0 < unat (t_diff_sum q)" "unat (t_diff_sum q) \<le> unat d"
  proof -
    from a have w: "t_diff_sum q \<noteq> 0" "t_diff_sum q \<le> d"
      by (auto simp: word_le_nat_alt unat_gt_0)
    have us: "unat (d - t_diff_sum q) = unat d - unat (t_diff_sum q)"
      using w by (simp add: unat_sub)
    have "unat QFQ_DRAIN_RATE * unat (d - t_diff_sum q) \<le> unat QFQ_DRAIN_RATE * unat d"
      unfolding us by (rule mult_le_mono2) simp
    from this dr have b: "unat QFQ_DRAIN_RATE * unat (d - t_diff_sum q) < 2 ^ 64"
      by (rule le_less_trans)
    from cases w have "V (qfq_update_system_time q now) = V q + v_diff_sum q +
        (if bitmaps q ER = 0
         then QFQ_DRAIN_RATE * (d - t_diff_sum q) div
                ucast (max (of_nat LINK_SPEED) (wsum_active q))
         else 0)"
      by simp
    then show ?thesis
      using unat_drain_exact [OF b, of "wsum_active q"]
      by (simp add: unat_word_ariths us mod_simps)
  qed
  have c2: "unat (V (qfq_update_system_time q now)) =
              (unat (V q) + unat (v_diff_sum q) * unat d div unat (t_diff_sum q)) mod 2 ^ 64 \<and>
            unat (v_diff_sum (qfq_update_system_time q now)) =
              unat (v_diff_sum q) - unat (v_diff_sum q) * unat d div unat (t_diff_sum q) \<and>
            unat (t_diff_sum (qfq_update_system_time q now)) = unat (t_diff_sum q) - unat d"
    if a: "0 < unat (t_diff_sum q)" "unat d < unat (t_diff_sum q)"
  proof -
    from a have w: "t_diff_sum q \<noteq> 0" "d < t_diff_sum q"
      by (auto simp: word_less_nat_alt unat_gt_0)
    let ?x = "v_diff_sum q * d div t_diff_sum q"
    have ux: "unat ?x = unat (v_diff_sum q) * unat d div unat (t_diff_sum q)"
      by (rule u64_mul_div_exact [OF sh])
    have "unat (v_diff_sum q) * unat d \<le> unat (v_diff_sum q) * unat (t_diff_sum q)"
      using a by simp
    then have "unat (v_diff_sum q) * unat d div unat (t_diff_sum q) \<le> unat (v_diff_sum q)"
      using a by (metis div_le_mono nonzero_mult_div_cancel_right less_numeral_extra(3))
    then have xle: "?x \<le> v_diff_sum q"
      by (simp add: word_le_nat_alt ux)
    from cases w have e: "V (qfq_update_system_time q now) = V q + ?x"
      "v_diff_sum (qfq_update_system_time q now) = v_diff_sum q - ?x"
      "t_diff_sum (qfq_update_system_time q now) = t_diff_sum q - d"
      by simp_all
    show ?thesis
      using w xle by (simp add: e unat_word_ariths(1) unat_sub ux less_imp_le)
  qed
  have c3: "unat (V (qfq_update_system_time q now)) =
              (unat (V q) +
                 (if bitmaps q ER = 0 then claimed_drain (unat d) (unat (wsum_active q)) else 0))
              mod 2 ^ 64"
    if a: "unat (t_diff_sum q) = 0"
  proof -
    from a have w: "t_diff_sum q = 0"
      by (simp add: unat_eq_0)
    from cases w have "V (qfq_update_system_time q now) = V q +
        (if bitmaps q ER = 0
         then QFQ_DRAIN_RATE * d div ucast (max (of_nat LINK_SPEED) (wsum_active q))
         else 0)"
      by simp
    then show ?thesis
      using unat_drain_exact [OF dr, of "wsum_active q"]
      by (simp add: unat_word_ariths)
  qed
  have rest: "t_diff_sum q \<noteq> 0 \<and> t_diff_sum q \<le> d \<longrightarrow>
      v_diff_sum (qfq_update_system_time q now) = 0 \<and>
      t_diff_sum (qfq_update_system_time q now) = 0"
    "t_diff_sum q = 0 \<longrightarrow>
      v_diff_sum (qfq_update_system_time q now) = v_diff_sum q \<and>
      t_diff_sum (qfq_update_system_time q now) = 0"
    "v_last_updated (qfq_update_system_time q now) = now"
    using cases by simp_all
  show ?thesis
    unfolding Let_def ud [symmetric]
    using c1 c2 c3 rest
    by (auto simp: word_le_nat_alt unat_gt_0 unat_eq_0)
qed

text \<open>
  The state with debt, at times 20100 (the debt is retired and the clock drains for
  the 3282 ns left) and 5100 (5000 of the 16718 ns of debt are paid).
\<close>

lemma qfq_update_system_time_exact_example:
  "unat (V (qfq_update_system_time c2_state 20100)) = 2684404864 \<and>
   v_diff_sum (qfq_update_system_time c2_state 20100) = 0 \<and>
   t_diff_sum (qfq_update_system_time c2_state 20100) = 0 \<and>
   v_last_updated (qfq_update_system_time c2_state 20100) = 20100 \<and>
   unat (V (qfq_update_system_time c2_state 5100)) = 1000 + 671103385 \<and>
   unat (v_diff_sum (qfq_update_system_time c2_state 5100)) = 2243901281 - 671103385 \<and>
   unat (t_diff_sum (qfq_update_system_time c2_state 5100)) = 11718"
proof -
  have vals: "v_last_updated c2_state = 100" "t_diff_sum c2_state = 16718"
    "v_diff_sum c2_state = 2243901281" "V c2_state = 1000" "bitmaps c2_state ER = 0"
    "wsum_active c2_state = 2"
    by (simp_all add: c2_state_def qfq_eval)
  have dr: "QFQ_DRAIN_RATE = 1315333734"
    by (simp add: QFQ_DRAIN_RATE_def qfq_consts)
  from qfq_update_system_time_exact [of c2_state 20100]
    qfq_update_system_time_exact [of c2_state 5100]
  show ?thesis
    by (simp add: vals Let_def dr claimed_drain_def LINK_SPEED_def)
qed

text \<open>
  Claim C2, evaluated at the first call after \<open>qfq_init_qdisc\<close>. The claim has \<open>V\<close>
  grow by \<open>DRAIN_RATE * dt / max(LINK_SPEED, wsum_active)\<close> when there is no debt and
  ER is empty. The initial state has \<open>v_last_updated = 0\<close>, no debt, an empty ER and
  \<open>V = 0\<close>. With the clock at 20 s, \<open>dt = 20000000000\<close> and the claimed advance is
  2684354559183673; \<open>qfq_update_system_time\<close> leaves \<open>V = 802033735335760\<close>, because the
  u64 product \<open>QFQ_DRAIN_RATE * t_diff\<close> exceeds \<open>2 ^ 64\<close> and wraps before it is
  divided. With the clock at 14 s the product fits and \<open>V\<close> is the claimed
  1879048191428571, more than after 20 s.
\<close>

theorem qfq_update_system_time_product_wraps:
  "v_last_updated qfq_init_qdisc = 0 \<and> t_diff_sum qfq_init_qdisc = 0 \<and>
   bitmaps qfq_init_qdisc ER = 0 \<and> wsum_active qfq_init_qdisc = 0 \<and>
   V qfq_init_qdisc = 0 \<and>
   claimed_drain 20000000000 0 = 2684354559183673 \<and>
   unat (V (qfq_update_system_time qfq_init_qdisc 20000000000)) = 802033735335760 \<and>
   v_last_updated (qfq_update_system_time qfq_init_qdisc 20000000000) = 20000000000 \<and>
   claimed_drain 14000000000 0 = 1879048191428571 \<and>
   unat (V (qfq_update_system_time qfq_init_qdisc 14000000000)) = 1879048191428571"
proof -
  have vals: "v_last_updated qfq_init_qdisc = 0" "t_diff_sum qfq_init_qdisc = 0"
    "bitmaps qfq_init_qdisc ER = 0" "wsum_active qfq_init_qdisc = 0" "V qfq_init_qdisc = 0"
    by (simp_all add: qfq_init_qdisc_def)
  have dr: "QFQ_DRAIN_RATE = 1315333734"
    by (simp add: QFQ_DRAIN_RATE_def qfq_consts)
  have cd: "claimed_drain 20000000000 0 = 2684354559183673"
    "claimed_drain 14000000000 0 = 1879048191428571"
    by (simp_all add: claimed_drain_def dr LINK_SPEED_def)
  have V20: "V (qfq_update_system_time qfq_init_qdisc 20000000000) = 802033735335760"
    by (simp add: qfq_update_system_time_def Let_def vals dr LINK_SPEED_def)
  have V14: "V (qfq_update_system_time qfq_init_qdisc 14000000000) = 1879048191428571"
    by (simp add: qfq_update_system_time_def Let_def vals dr LINK_SPEED_def)
  have L20: "v_last_updated (qfq_update_system_time qfq_init_qdisc 20000000000) = 20000000000"
    by (simp add: qfq_update_system_time_def Let_def vals)
  show ?thesis
    by (simp add: vals cd V20 V14 L20)
qed

section \<open>Rejected configuration requests\<close>

lemma unat_ONE_FP_div: "unat (ONE_FP div ucast (iw :: u32)) = weight_of_inv_w iw"
  by (simp add: weight_of_inv_w_def unat_div unat_ucast_32_64)

lemma weight_of_inv_w_le: "weight_of_inv_w iw \<le> 2 ^ 30"
  unfolding weight_of_inv_w_def by (rule order_trans [OF div_le_dividend]) (simp add: qfq_consts)

lemma inv_w_of_weight_ge:
  assumes "unat weight \<le> 2 ^ 16"
  shows "2 ^ 14 \<le> unat (inv_w_of_weight weight)"
proof (cases "weight = 0")
  case True
  then show ?thesis by (simp add: inv_w_of_weight_def qfq_consts)
next
  case False
  then have pos: "0 < unat weight" by (simp add: unat_gt_0)
  have "2 ^ 14 * unat weight \<le> 2 ^ 14 * 2 ^ 16"
    using assms by (intro mult_left_mono) simp_all
  then have "2 ^ 14 \<le> 2 ^ 30 div unat weight"
    using pos by (simp add: less_eq_div_iff_mult_less_eq)
  with False show ?thesis
    by (simp add: unat_inv_w_of_weight qfq_consts)
qed

lemma new_weight_le:
  assumes "unat weight \<le> 2 ^ 16"
  shows "weight_of_inv_w (inv_w_of_weight weight) \<le> 2 ^ 16"
proof -
  from inv_w_of_weight_ge [OF assms] have "2 ^ 30 div unat (inv_w_of_weight weight) \<le> 2 ^ 30 div 2 ^ 14"
    by (intro div_le_mono2) simp_all
  then show ?thesis
    by (simp add: weight_of_inv_w_def qfq_consts)
qed


lemma wsum_check:
  fixes ws :: u32 and iw' old_iw :: u32
  assumes ws: "unat ws \<le> 2 ^ 17"
    and new: "weight_of_inv_w iw' \<le> 2 ^ 16"
    and over: "unat ws + weight_of_inv_w iw' > 2 ^ 17 + old"
    and old: "old = unat oldw" 
  shows "ws + ucast ((ucast (ucast (ONE_FP div ucast iw') :: u32) :: ulong) - oldw)
           > (of_nat (2 ^ 17) :: u32)"
proof -
  define w' where "w' = weight_of_inv_w iw'"
  define a :: ulong where "a = ucast (ucast (ONE_FP div ucast iw') :: u32)"
  define d :: u32 where "d = ucast (a - oldw)"
  from over ws have gt: "old < w'" by (simp add: w'_def)
  have "unat (ucast (ONE_FP div ucast iw') :: u32) = w'"
    using new by (simp add: unsigned_ucast_eq unat_ONE_FP_div take_bit_nat_eq_self w'_def)
  then have a: "unat a = w'"
    unfolding a_def by (simp only: unat_ucast_32_64)
  have "oldw \<le> a"
    using gt by (simp add: word_le_nat_alt a old)
  then have diff: "unat (a - oldw) = w' - old"
    by (simp add: unat_sub a old)
  have "w' - old < 2 ^ 32"
    using new by (simp add: w'_def)
  then have d: "unat d = w' - old"
    unfolding d_def by (simp add: unsigned_ucast_eq diff take_bit_nat_eq_self)
  have "unat ws + (w' - old) < 2 ^ 32"
    using ws new by (simp add: w'_def)
  then have "unat (ws + d) = unat ws + (w' - old)"
    by (simp add: unat_word_ariths d)
  moreover have "2 ^ 17 < unat ws + (w' - old)"
    using over gt by (simp add: w'_def)
  ultimately have "(of_nat (2 ^ 17) :: u32) < ws + d"
    by (simp add: word_less_nat_alt)
  then show ?thesis
    unfolding d_def a_def .
qed

text \<open>
  Claim C9. On a scheduler whose weight sum is within \<open>QFQ_MAX_WSUM\<close> (for an existing
  class, one whose \<open>inv_w\<close> is not 0), \<open>qfq_change_class\<close> rejects every request with a
  weight above \<open>QFQ_MAX_WEIGHT\<close>, every request with \<open>lmax = 0\<close> or
  \<open>lmax > 2 ^ QFQ_MTU_SHIFT\<close>, and every request for which the weight sum plus the
  change of weight would exceed \<open>QFQ_MAX_WSUM\<close>: it returns a negative error code and
  the scheduler state is the one it was given.
\<close>

theorem qfq_change_class_rejects:
  assumes wsum: "unat (wsum q) \<le> QFQ_MAX_WSUM"
    and live: "case cl of Some c \<Rightarrow> inv_w (classes q c) \<noteq> 0 | None \<Rightarrow> True"
    and bad: "unat (req_weight r) > QFQ_MAX_WEIGHT \<or>
              req_lmax r = 0 \<or> unat (req_lmax r) > 2 ^ QFQ_MTU_SHIFT \<or>
              int (unat (wsum q)) + weight_delta q cl r > int QFQ_MAX_WSUM"
  shows "\<exists>e. e < 0 \<and> qfq_change_class q cl r = Some (e, q)"
proof -
  let ?res = "qfq_change_class q cl r"
  have wgt: "(case tb_weight r of Some w \<Rightarrow> w > push_bit QFQ_MAX_WSHIFT 1 | None \<Rightarrow> False)
      = (unat (req_weight r) > QFQ_MAX_WEIGHT)"
    by (simp add: req_weight_def qfq_consts word_less_nat_alt split: option.split)
  have lm: "(case tb_lmax r of Some l \<Rightarrow> l = 0 \<or> l > push_bit QFQ_MTU_SHIFT 1 | None \<Rightarrow> False)
      = (req_lmax r = 0 \<or> unat (req_lmax r) > 2 ^ QFQ_MTU_SHIFT)"
    by (simp add: req_lmax_def qfq_consts word_less_nat_alt split: option.split)
  have w0: "(case tb_weight r of Some w \<Rightarrow> w | None \<Rightarrow> 1) = req_weight r"
    by (simp add: req_weight_def)
  have l0: "(case tb_lmax r of Some l \<Rightarrow> l | None \<Rightarrow> push_bit QFQ_MTU_SHIFT 1) = req_lmax r"
    by (simp add: req_lmax_def)
  have nlive: "\<not> (case cl of Some c \<Rightarrow> inv_w (classes q c) = 0 | None \<Rightarrow> False)"
    using live by (simp split: option.splits)
  consider (noopt) "\<not> has_options r" | (parse) "has_options r" "parse_err r < 0"
    | (weight) "has_options r" "\<not> parse_err r < 0" "unat (req_weight r) > QFQ_MAX_WEIGHT"
    | (rest) "has_options r" "\<not> parse_err r < 0" "\<not> unat (req_weight r) > QFQ_MAX_WEIGHT"
    by blast
  then show ?thesis
  proof cases
    case noopt
    then have "?res = Some (- EINVAL, q)"
      by (simp add: qfq_change_class_def)
    then show ?thesis by (simp add: EINVAL_def)
  next
    case parse
    then have "?res = Some (parse_err r, q)"
      by (simp add: qfq_change_class_def)
    with parse show ?thesis by simp
  next
    case weight
    then have "?res = Some (- EINVAL, q)"
      by (simp add: qfq_change_class_def wgt)
    then show ?thesis by (simp add: EINVAL_def)
  next
    case rest
    define oldw :: ulong where
      "oldw = (case cl of Some c \<Rightarrow> ONE_FP div ucast (inv_w (classes q c)) | None \<Rightarrow> 0)"
    define delta_w :: u32 where
      "delta_w = ucast ((ucast (ucast (ONE_FP div ucast (inv_w_of_weight (req_weight r))) :: u32)
                    :: ulong) - oldw)"
    have res: "?res =
      (if wsum q + delta_w > of_nat QFQ_MAX_WSUM then Some (- EINVAL, q)
       else if req_lmax r = 0 \<or> unat (req_lmax r) > 2 ^ QFQ_MTU_SHIFT then Some (- EINVAL, q)
       else (case cl of
               Some c \<Rightarrow> qfq_change_existing q c r (req_lmax r) (inv_w_of_weight (req_weight r)) delta_w
             | None \<Rightarrow> qfq_change_new q r (req_lmax r) (inv_w_of_weight (req_weight r)) delta_w))"
      using rest nlive
      unfolding qfq_change_class_def wgt lm w0 l0 Let_def delta_w_def oldw_def
      by simp
    have over: "wsum q + delta_w > of_nat QFQ_MAX_WSUM"
      if "int (unat (wsum q)) + weight_delta q cl r > int QFQ_MAX_WSUM"
    proof -
      have old: "(case cl of Some c \<Rightarrow> weight_of_inv_w (inv_w (classes q c)) | None \<Rightarrow> 0) = unat oldw"
        by (simp add: oldw_def unat_ONE_FP_div split: option.split)
      have new: "weight_of_inv_w (inv_w_of_weight (req_weight r)) \<le> 2 ^ 16"
        using rest by (intro new_weight_le) (simp add: qfq_consts)
      have "int (2 ^ 17 + (case cl of Some c \<Rightarrow> weight_of_inv_w (inv_w (classes q c)) | None \<Rightarrow> 0))
          < int (unat (wsum q) + weight_of_inv_w (inv_w_of_weight (req_weight r)))"
        using that unfolding weight_delta_def qfq_consts of_nat_add
        by (cases cl) simp_all
      then have "2 ^ 17 + (case cl of Some c \<Rightarrow> weight_of_inv_w (inv_w (classes q c)) | None \<Rightarrow> 0)
          < unat (wsum q) + weight_of_inv_w (inv_w_of_weight (req_weight r))"
        by (simp only: of_nat_less_iff)
      from wsum_check [OF _ new this old] wsum show ?thesis
        by (simp add: delta_w_def qfq_consts)
    qed
    from bad rest over have "?res = Some (- EINVAL, q)"
      unfolding res by auto
    then show ?thesis by (simp add: EINVAL_def)
  qed
qed


theorem qfq_change_class_rejects_witness:
  "unat (wsum c9_full) \<le> QFQ_MAX_WSUM \<and>
   int QFQ_MAX_WSUM < int (unat (wsum c9_full)) + weight_delta c9_full None (new_class_req 1) \<and>
   (\<exists>e. e < 0 \<and> qfq_change_class c9_full None (new_class_req 1) = Some (e, c9_full)) \<and>
   req_lmax ((new_class_req 1)\<lparr>tb_lmax := Some 0\<rparr>) = 0 \<and>
   (\<exists>e. e < 0 \<and> qfq_change_class qfq_init_qdisc None ((new_class_req 1)\<lparr>tb_lmax := Some 0\<rparr>)
                   = Some (e, qfq_init_qdisc)) \<and>
   QFQ_MAX_WEIGHT < unat (req_weight ((new_class_req 1)\<lparr>tb_weight := Some 70000\<rparr>)) \<and>
   (\<exists>e. e < 0 \<and> qfq_change_class qfq_init_qdisc None ((new_class_req 1)\<lparr>tb_weight := Some 70000\<rparr>)
                   = Some (e, qfq_init_qdisc))"
proof -
  have h1: "unat (wsum c9_full) \<le> QFQ_MAX_WSUM"
    and h2: "int QFQ_MAX_WSUM < int (unat (wsum c9_full)) + weight_delta c9_full None (new_class_req 1)"
    by (simp_all add: c9_full_def qfq_init_qdisc_def qfq_consts weight_delta_def
        weight_of_inv_w_def inv_w_of_weight_def req_weight_def new_class_req_def)
  have h3: "unat (wsum qfq_init_qdisc) \<le> QFQ_MAX_WSUM"
    by (simp add: qfq_init_qdisc_def)
  have h4: "req_lmax ((new_class_req 1)\<lparr>tb_lmax := Some 0\<rparr>) = 0"
    and h5: "QFQ_MAX_WEIGHT < unat (req_weight ((new_class_req 1)\<lparr>tb_weight := Some 70000\<rparr>))"
    by (simp_all add: req_lmax_def req_weight_def new_class_req_def qfq_consts)
  from qfq_change_class_rejects [of c9_full None "new_class_req 1"] h1 h2
  have r1: "\<exists>e. e < 0 \<and> qfq_change_class c9_full None (new_class_req 1) = Some (e, c9_full)"
    by simp
  from qfq_change_class_rejects [of qfq_init_qdisc None "(new_class_req 1)\<lparr>tb_lmax := Some 0\<rparr>"] h3 h4
  have r2: "\<exists>e. e < 0 \<and> qfq_change_class qfq_init_qdisc None ((new_class_req 1)\<lparr>tb_lmax := Some 0\<rparr>)
                   = Some (e, qfq_init_qdisc)"
    by simp
  from qfq_change_class_rejects [of qfq_init_qdisc None "(new_class_req 1)\<lparr>tb_weight := Some 70000\<rparr>"] h3 h5
  have r3: "\<exists>e. e < 0 \<and> qfq_change_class qfq_init_qdisc None ((new_class_req 1)\<lparr>tb_weight := Some 70000\<rparr>)
                   = Some (e, qfq_init_qdisc)"
    by simp
  from h1 h2 r1 h4 r2 h5 r3 show ?thesis
    by blast
qed

section \<open>Running the scheduler on concrete states\<close>

lemma upt_32:
  "[0..<32] = [0, 1, 2, 3, 4, 5, 6, 7, 8, 9, 10, 11, 12, 13, 14, 15, 16, 17, 18, 19, 20,
               21, 22, 23, 24, 25, 26, 27, 28, 29, 30, 31]"
  by (simp add: upt_rec)

lemma upt_20:
  "[0..<20] = [0, 1, 2, 3, 4, 5, 6, 7, 8, 9, 10, 11, 12, 13, 14, 15, 16, 17, 18, 19]"
  by (simp add: upt_rec)

lemmas qfq_run = qfq_eval upt_32 upt_20
  qfq_update_eligible_def qfq_make_eligible_def qfq_move_groups_def fls_def
  qfq_calc_state_def qfq_slot_insert_def qfq_slot_rotate_def qfq_slot_remove_def
  qfq_front_slot_remove_def qfq_slot_head_def qfq_slot_scan_def
  qfq_unblock_groups_def wsum_active_sub_def QFQ_DRAIN_RATE_def

lemmas qfq_run2 = qfq_run qfq_change_class_def qfq_change_new_def qfq_update_class_params_def
  inv_w_of_weight_def qfq_calc_index_def new_class_req_def
  qfq_enqueue_def qfq_spinner_activate_classes_def qfq_update_system_time_def
  qfq_activate_class_def qfq_update_start_def qfq_deactivate_class_def
  qfq_drop_def qdisc_drop_def backlogged_weight_def weight_of_inv_w_def

lemmas qfq_run3 = qfq_run2 qfq_dequeue_def qfq_dequeue_update_def qfq_update_class_def
  bitmaps_disjoint_def states_of_group_def qfq_bitmap_inv_def

section \<open>Deactivation of the last class of a group\<close>

text \<open>
  The guard of the cross-tier unblock in \<open>qfq_deactivate_class\<close> asks for the group's
  bit to be set in ER and for no bit of ER at a position from the group's index
  upward, the group's own included: it never holds.
\<close>

lemma deactivate_guard_never:
  "\<not> (bit (b :: ulong) idx \<and> b AND NOT (push_bit idx 1 - 1) = 0)"
proof
  assume a: "bit b idx \<and> b AND NOT (push_bit idx 1 - 1) = 0"
  then have "bit (mask_from b idx) idx"
    by (simp add: bit_mask_from)
  with a show False
    by (simp add: mask_from_def)
qed

text \<open>
  Claim C4, evaluated. Group 5 is in ER, no higher group is, and group 3 is in EB.
  Deactivating class 9 empties group 5. The claim has the groups in EB move to ER
  (here at all indices, since ER holds nothing else); \<open>qfq_deactivate_class\<close> clears
  the bit of group 5 and moves nothing: ER becomes empty and group 3 stays in EB.
\<close>

theorem qfq_deactivate_class_leaves_blocked:
  "bit (bitmaps c4_state ER) 5 \<and> mask_from (bitmaps c4_state ER) 6 = 0 \<and>
   bit (bitmaps c4_state EB) 3 \<and>
   (case qfq_deactivate_class c4_state 9 of
      None \<Rightarrow> False
    | Some q \<Rightarrow> full_slots (groups q 5) = 0 \<and> bitmaps q ER = 0 \<and> bitmaps q EB = 8 \<and>
                bitmaps q IR = 0 \<and> bitmaps q IB = 0)"
  by (simp add: qfq_deactivate_class_def c4_state_def qfq_run
      cong: let_weak_cong prod.case_cong_weak)

section \<open>The weight of the backlogged classes\<close>

text \<open>
  Claim C7, evaluated. After the activation drain \<open>wsum_active\<close> is the weight 1 of the
  only backlogged class. \<open>qfq_drop\<close> then removes its only packet and deactivates it,
  and leaves \<open>wsum_active\<close> at 1 while no class is backlogged any more.
\<close>

theorem qfq_drop_keeps_wsum_active:
  "(case c7_active of
      None \<Rightarrow> False
    | Some q \<Rightarrow>
        unat (wsum_active q) = backlogged_weight q \<and> backlogged_weight q = 1 \<and>
        (case qfq_drop q of
           None \<Rightarrow> False
         | Some (q', len) \<Rightarrow>
             len = 1500 \<and> qdisc (classes q' 1) = [] \<and> backlogged_weight q' = 0 \<and>
             wsum_active q' = 1))"
  by (simp add: c7_active_def qfq_run2 cong: let_weak_cong prod.case_cong_weak)

section \<open>The invariant of the state bitmaps\<close>

lemma c1_step1: "c1_drained = Some c1_s1"
  by (simp add: c1_drained_def c1_s1_def qfq_run3 cong: let_weak_cong prod.case_cong_weak)

lemma c1_step2: "qfq_dequeue c1_s1 9800 = Some (c1_s2, Some 20480)"
  by (simp add: c1_s1_def c1_s2_def qfq_run3 cong: let_weak_cong prod.case_cong_weak)

lemma c1_step3: "qfq_dequeue c1_s2 9800 = Some (c1_s3, Some 4096)"
  by (simp add: c1_s1_def c1_s2_def c1_s3_def qfq_run3 fun_eq_iff
      cong: let_weak_cong prod.case_cong_weak)

lemma c1_step4: "qfq_update_system_time (qfq_enqueue c1_s3 0 20 1500) 20000000 = c1_s4"
  by (simp add: c1_s1_def c1_s2_def c1_s3_def c1_s4_def qfq_run3 fun_eq_iff
      cong: let_weak_cong prod.case_cong_weak)

lemma c1_inv_before:
  "qfq_bitmap_inv c1_s1" "qfq_bitmap_inv c1_s2" "qfq_bitmap_inv c1_s3" "qfq_bitmap_inv c1_s4"
  by (simp_all add: c1_s1_def c1_s2_def c1_s3_def c1_s4_def qfq_run3)

lemma c1_broken:
  "bitmaps (qfq_activate_class c1_s4 20 1500) ER = 524288"
  "bitmaps (qfq_activate_class c1_s4 20 1500) IR = 524288"
  "\<not> qfq_bitmap_inv (qfq_activate_class c1_s4 20 1500)"
  by (simp_all add: c1_s1_def c1_s2_def c1_s3_def c1_s4_def qfq_run3 cong: let_weak_cong prod.case_cong_weak)

lemma c1_spinner:
  "(case qfq_spinner_activate_classes [0] (qfq_enqueue c1_s3 0 20 1500) 20000000 of
      None \<Rightarrow> False
    | Some q \<Rightarrow> bitmaps q ER = 524288 \<and> bitmaps q IR = 524288 \<and> \<not> qfq_bitmap_inv q)"
  by (simp add: c1_s1_def c1_s2_def c1_s3_def c1_s4_def qfq_run3 cong: let_weak_cong prod.case_cong_weak)

text \<open>
  Claim C1, evaluated. The run above goes through four states that satisfy the
  invariant. In the last one group 19 is in ER with a start time after that of the
  class being activated, so \<open>qfq_activate_class\<close> rotates the slots, clears the group's
  bit in IR and IB only, and sets it in the bitmap of the new state, IR: the bit of
  group 19 is then set in both ER and IR. The same holds for the whole activation
  drain.
\<close>

theorem qfq_activate_class_breaks_bitmap_inv:
  "c1_drained = Some c1_s1 \<and>
   qfq_dequeue c1_s1 9800 = Some (c1_s2, Some 20480) \<and>
   qfq_dequeue c1_s2 9800 = Some (c1_s3, Some 4096) \<and>
   qfq_update_system_time (qfq_enqueue c1_s3 0 20 1500) 20000000 = c1_s4 \<and>
   qfq_bitmap_inv c1_s1 \<and> qfq_bitmap_inv c1_s2 \<and> qfq_bitmap_inv c1_s3 \<and>
   qfq_bitmap_inv c1_s4 \<and>
   bitmaps (qfq_activate_class c1_s4 20 1500) ER = 524288 \<and>
   bitmaps (qfq_activate_class c1_s4 20 1500) IR = 524288 \<and>
   \<not> qfq_bitmap_inv (qfq_activate_class c1_s4 20 1500) \<and>
   (case qfq_spinner_activate_classes [0] (qfq_enqueue c1_s3 0 20 1500) 20000000 of
      None \<Rightarrow> False
    | Some q \<Rightarrow> bitmaps q ER = 524288 \<and> bitmaps q IR = 524288 \<and> \<not> qfq_bitmap_inv q)"
  using c1_step1 c1_step2 c1_step3 c1_step4 c1_inv_before c1_broken c1_spinner
  by simp

end
